theory Spec2Isabelle
  imports Complex_Main
begin

section \<open>JavaScript values\<close>

text \<open>
  The values that reach the code under study: \<open>undefined\<close>, \<open>null\<close>, booleans,
  numbers, strings and arrays. A string is a list of code units (\<open>char\<close> stands
  for one UTF-16 unit); numbers that are read as values are integers here, the one
  place where \<open>NaN\<close> arises (the width of an image) has its own type below.
\<close>

datatype jsval =
    JUndefined
  | JNull
  | JBool bool
  | JNum int
  | JStr string
  | JArr "jsval list"

datatype error = ImageError | TypeError | RangeError

text \<open>Truthiness, as \<open>!x\<close>, \<open>x || y\<close> and \<open>if (x)\<close> read it.\<close>

fun truthy :: "jsval \<Rightarrow> bool" where
  "truthy JUndefined = False"
| "truthy JNull = False"
| "truthy (JBool b) = b"
| "truthy (JNum n) = (n \<noteq> 0)"
| "truthy (JStr s) = (s \<noteq> [])"
| "truthy (JArr xs) = True"

definition js_or :: "jsval \<Rightarrow> jsval \<Rightarrow> jsval" where
  "js_or a b = (if truthy a then a else b)"

text \<open>\<open>Array.isArray(x)\<close> and \<open>typeof x === 'string'\<close>.\<close>

fun isArray :: "jsval \<Rightarrow> bool" where
  "isArray (JArr xs) = True"
| "isArray v = False"


text \<open>\<open>s[i]\<close> on a string and \<open>xs[i]\<close> on an array: \<open>undefined\<close> out of range.\<close>

definition str_index :: "string \<Rightarrow> int \<Rightarrow> jsval" where
  "str_index s i = (if 0 \<le> i \<and> nat i < length s then JStr [s ! nat i] else JUndefined)"

definition arr_index :: "jsval list \<Rightarrow> nat \<Rightarrow> jsval" where
  "arr_index xs i = (if i < length xs then xs ! i else JUndefined)"

section \<open>Random numbers and the character source\<close>

text \<open>
  \<open>const random = (from, to) => Math.floor((Math.random() * (to - from)) + from)\<close>.
  The value of \<open>Math.random()\<close> is the argument \<open>r\<close>, a real in \<open>[0, 1)\<close>; the
  arithmetic is exact (the rounding of doubles is not modelled).
\<close>

definition random :: "real \<Rightarrow> real \<Rightarrow> real \<Rightarrow> int" where
  "random from to r = \<lfloor>r * (to - from) + from\<rfloor>"

text \<open>
  \<open>getRandomChar(except = null)\<close>, with \<open>lastIndexOnRandom = alphabet.length - 0.000001\<close>.
\<close>

definition getRandomChar :: "string \<Rightarrow> jsval \<Rightarrow> real \<Rightarrow> jsval" where
  "getRandomChar alphabet except r =
     (let index = random 0 (real (length alphabet) - 1 / 1000000) r;
          char = str_index alphabet index
      in if truthy except \<and> except = char
         then (if index \<noteq> 0 then str_index alphabet 0 else str_index alphabet 1)
         else char)"


section \<open>The grid, the timers and the scheduled tasks\<close>

text \<open>
  Two implementations of the monitor live in the repository. They agree on everything
  modelled here except that the simpler one keeps each cell's update closure in
  \<open>update.function\<close> (and \<open>resume\<close> skips a cell that has none), and that its
  \<open>draw\<close> has no refresh cycle. The field \<open>variant\<close> of the configuration says
  which one runs.
\<close>

datatype variant = Full | Simple

record config =
  variant :: variant
  alphabet :: string
  initialDelay :: int
  mainLoopInterval :: int
  mainLoopDuration :: "int option"
  minCharStartDelay :: int
  maxCharStartDelay :: int
  minCharProgression :: int
  maxCharProgression :: int

text \<open>\<open>MatrixMonitor.DEFAULT_OPTIONS\<close>, for an alphabet given by the caller.\<close>

definition DEFAULT_OPTIONS :: "variant \<Rightarrow> string \<Rightarrow> config" where
  "DEFAULT_OPTIONS v a =
     \<lparr>variant = v, alphabet = a, initialDelay = 1000, mainLoopInterval = 10000,
      mainLoopDuration = None, minCharStartDelay = 500, maxCharStartDelay = 10000,
      minCharProgression = 200, maxCharProgression = 800\<rparr>"

type_synonym handle = nat

text \<open>A cell is named by its \<open>(columnIndex, rowIndex)\<close>.\<close>

type_synonym cellref = "nat \<times> nat"

record update_state =
  timer :: "handle option"
  has_function :: bool
  delay :: "int option"
  progression :: "int option"
  nextChar :: jsval
  isUpdated :: bool

record cell =
  innerText :: jsval
  update :: update_state

definition new_cell :: cell where
  "new_cell =
     \<lparr>innerText = JStr [],
      update = \<lparr>timer = None, has_function = False, delay = None, progression = None,
                nextChar = JNull, isUpdated = False\<rparr>\<rparr>"

record timers =
  mainLoopInterval_t :: "handle option"
  mainLoopDuration_t :: "handle option"
  start_t :: "handle option"
  pause_t :: "handle option"
  resume_t :: "handle option"
  stop_t :: "handle option"

text \<open>The options records of the operations; a field that is \<open>None\<close> is not given.\<close>

record start_options =
  so_delay :: "int option"
  so_duration :: "int option"

record pause_options =
  po_delay :: "int option"
  po_onlyTopCells :: "bool option"
  po_allAtOnce :: "bool option"
  po_minPauseDelay :: "int option"
  po_maxPauseDelay :: "int option"

record resume_options =
  ro_delay :: "int option"
  ro_onlyTopCells :: "bool option"

record stop_options =
  to_delay :: "int option"
  to_clearScreen :: "bool option"

record glitch_options =
  go_delay :: "int option"
  go_duration :: "int option"

record draw_options =
  do_delay :: "int option"
  do_duration :: "int option"
  do_marginTop :: "int option"
  do_paddingTop :: "int option"
  do_marginBottom :: "int option"
  do_paddingBottom :: "int option"
  do_marginRight :: "int option"
  do_paddingRight :: "int option"
  do_marginLeft :: "int option"
  do_paddingLeft :: "int option"
  do_paddingChar :: "jsval option"
  do_keepOnNotAffectedColumns :: "bool option"

record mainLoop_options =
  ml_clearScreen :: bool
  ml_charTable :: "jsval list"
  ml_ignoreColumns :: "int list"

text \<open>\<open>mainLoop()\<close> with no argument: every option at its default.\<close>

definition mainLoop_defaults :: mainLoop_options where
  "mainLoop_defaults = \<lparr>ml_clearScreen = False, ml_charTable = [], ml_ignoreColumns = []\<rparr>"

text \<open>
  An options argument is an object, is left out (or \<open>undefined\<close>, which the default
  \<open>options = {}\<close> replaces), or is \<open>null\<close>, which no default replaces.
\<close>

datatype 'a arg = Missing | Null | Obj 'a

text \<open>
  A number that may be \<open>NaN\<close> or \<open>-Infinity\<close>: the width of an image whose rows
  have no length (\<open>Math.max\<close> of an \<open>undefined\<close>), or that has no row at all.
\<close>

datatype num = Num int | NaN | NegInfinity

text \<open>
  What a timer runs when it fires. Each constructor is one callback of the source with
  the values its closure holds.
\<close>

datatype action =
    ACreateDroplet cellref bool "jsval list"
  | AUpdateCell cellref jsval
  | AFade cellref jsval
  | AStartFunction
  | AMainLoop mainLoop_options
  | APauseFunction bool bool int int
  | APauseAtOnce bool
  | AClearTimeout "handle option"
  | AResumeFunction bool
  | AStopFunction bool
  | AGlitch
  | ADrawFunction "jsval list" int int int int num int bool
  | AKeepFunction int int num int int

record task =
  handle :: handle
  due :: int
  every :: "int option"
  act :: action

datatype call =
    CStart "start_options arg"
  | CPause "pause_options arg"
  | CResume "resume_options arg"
  | CStop "stop_options arg"
  | CGlitch "glitch_options arg"
  | CDraw jsval "draw_options arg"

record monitor =
  isInitialized :: bool
  deferred :: "call list"
  columns :: "cell list list"
  timers :: timers
  now :: int
  nextHandle :: handle
  pending :: "task list"
  seed :: nat

subsection \<open>The grid\<close>

text \<open>
  \<open>monitor.cells\<close> lists the cells column by column, \<open>monitor.topCells\<close> the first
  cell of every column that has one (\<open>addCell\<close> pushes both).
\<close>

definition cells :: "monitor \<Rightarrow> cellref list" where
  "cells m = concat (map (\<lambda>c. map (\<lambda>r. (c, r)) [0..<length (columns m ! c)])
                          [0..<length (columns m)])"

definition topCells :: "monitor \<Rightarrow> cellref list" where
  "topCells m = map (\<lambda>c. (c, 0)) (filter (\<lambda>c. columns m ! c \<noteq> []) [0..<length (columns m)])"

definition valid_cell :: "monitor \<Rightarrow> cellref \<Rightarrow> bool" where
  "valid_cell m cl = (fst cl < length (columns m) \<and> snd cl < length (columns m ! fst cl))"

text \<open>\<open>get nextCell() { return col.cells[rowIndex + 1] }\<close>\<close>

definition nextCell :: "monitor \<Rightarrow> cellref \<Rightarrow> cellref option" where
  "nextCell m cl =
     (if valid_cell m (fst cl, Suc (snd cl)) then Some (fst cl, Suc (snd cl)) else None)"

definition get_cell :: "monitor \<Rightarrow> cellref \<Rightarrow> cell" where
  "get_cell m cl = columns m ! fst cl ! snd cl"

definition set_cell :: "cellref \<Rightarrow> cell \<Rightarrow> monitor \<Rightarrow> monitor" where
  "set_cell cl c m =
     m\<lparr>columns := (columns m)[fst cl := (columns m ! fst cl)[snd cl := c]]\<rparr>"

definition get_update :: "monitor \<Rightarrow> cellref \<Rightarrow> update_state" where
  "get_update m cl = update (get_cell m cl)"

definition set_update :: "cellref \<Rightarrow> update_state \<Rightarrow> monitor \<Rightarrow> monitor" where
  "set_update cl u m = set_cell cl ((get_cell m cl)\<lparr>update := u\<rparr>) m"

subsection \<open>Timers\<close>

text \<open>
  \<open>setTimeout(f, delay, ...args)\<close> queues a task due \<open>delay\<close> from now (a negative
  delay counts as zero) and returns its handle; \<open>setInterval\<close> queues a recurring one.
  \<open>clearTimeout\<close> and \<open>clearInterval\<close> share one pool of handles: either removes
  the task of that handle, and does nothing for \<open>null\<close> or a handle with no task.
\<close>

definition setTimeout :: "action \<Rightarrow> int \<Rightarrow> monitor \<Rightarrow> handle \<times> monitor" where
  "setTimeout a d m =
     (nextHandle m,
      m\<lparr>pending := pending m @
            [\<lparr>handle = nextHandle m, due = now m + max 0 d, every = None, act = a\<rparr>],
        nextHandle := Suc (nextHandle m)\<rparr>)"

definition setInterval :: "action \<Rightarrow> int \<Rightarrow> monitor \<Rightarrow> handle \<times> monitor" where
  "setInterval a d m =
     (nextHandle m,
      m\<lparr>pending := pending m @
            [\<lparr>handle = nextHandle m, due = now m + max 0 d, every = Some (max 0 d), act = a\<rparr>],
        nextHandle := Suc (nextHandle m)\<rparr>)"

definition clearTimeout :: "handle option \<Rightarrow> monitor \<Rightarrow> monitor" where
  "clearTimeout h m =
     (case h of None \<Rightarrow> m
      | Some k \<Rightarrow> m\<lparr>pending := filter (\<lambda>t. handle t \<noteq> k) (pending m)\<rparr>)"

definition clearInterval :: "handle option \<Rightarrow> monitor \<Rightarrow> monitor" where
  "clearInterval h m = clearTimeout h m"

text \<open>\<open>Math.random()\<close>: the next value of the stream \<open>rnd\<close>.\<close>

definition Math_random :: "(nat \<Rightarrow> real) \<Rightarrow> monitor \<Rightarrow> real \<times> monitor" where
  "Math_random rnd m = (rnd (seed m), m\<lparr>seed := Suc (seed m)\<rparr>)"


section \<open>The droplet cascade\<close>

text \<open>
  \<open>monitor.updateCell(cell, char)\<close> (the closure \<open>updateFunction\<close> of the simpler
  implementation): the glyph is shown, the cell is marked as updated, and the fade is
  queued 200 ms later. Styles are the renderer's and are left out.
\<close>

definition updateCell :: "cellref \<Rightarrow> jsval \<Rightarrow> monitor \<Rightarrow> monitor" where
  "updateCell cl char m =
     (let m1 = set_cell cl ((get_cell m cl)\<lparr>innerText := char\<rparr>) m;
          m2 = set_update cl ((get_update m1 cl)\<lparr>isUpdated := True\<rparr>) m1
      in snd (setTimeout (AFade cl char) 200 m2))"

text \<open>
  The glyph of one cell in \<open>createDroplet\<close>:
  \<^verbatim>\<open>
  if (clearScreen) { char = '' }
  else { char = charList[i]
         if (!char && (char !== '')) { char = monitor.getRandomChar(previousChar) } }
  \<close>
\<close>

definition droplet_char ::
  "config \<Rightarrow> (nat \<Rightarrow> real) \<Rightarrow> bool \<Rightarrow> jsval list \<Rightarrow> nat \<Rightarrow> jsval \<Rightarrow> monitor
     \<Rightarrow> jsval \<times> monitor" where
  "droplet_char cfg rnd clearScreen charList i previousChar m =
     (if clearScreen then (JStr [], m)
      else let char = arr_index charList i in
        if \<not> truthy char \<and> char \<noteq> JStr []
        then (case Math_random rnd m of
                (r, m') \<Rightarrow> (getRandomChar (alphabet cfg) previousChar r, m'))
        else (char, m))"

text \<open>
  The body of the loop of \<open>createDroplet\<close> for one cell: the pending update is
  cancelled, the new one queued, and the cell's update state overwritten.
\<close>

definition droplet_cell ::
  "config \<Rightarrow> cellref \<Rightarrow> jsval \<Rightarrow> int \<Rightarrow> int \<Rightarrow> monitor \<Rightarrow> monitor" where
  "droplet_cell cfg cl char dly prog m =
     (let m1 = clearTimeout (timer (get_update m cl)) m;
          (tm, m2) = setTimeout (AUpdateCell cl char) dly m1
      in set_update cl
           ((get_update m2 cl)
              \<lparr>timer := Some tm,
               has_function := (variant cfg = Simple \<or> has_function (get_update m2 cl)),
               delay := Some dly, progression := Some prog, nextChar := char,
               isUpdated := False\<rparr>) m2)"

lemma columns_clearTimeout [simp]: "columns (clearTimeout h m) = columns m"
  by (simp add: clearTimeout_def split: option.splits)

lemma columns_setTimeout [simp]: "columns (snd (setTimeout a d m)) = columns m"
  by (simp add: setTimeout_def)

lemma columns_setInterval [simp]: "columns (snd (setInterval a d m)) = columns m"
  by (simp add: setInterval_def)

lemma columns_Math_random [simp]: "columns (snd (Math_random rnd m)) = columns m"
  by (simp add: Math_random_def)

text \<open>The shape of the grid: the operations never change it.\<close>

definition shape :: "monitor \<Rightarrow> nat list" where
  "shape m = map length (columns m)"

lemma valid_cell_shape: "valid_cell m cl = (fst cl < length (shape m) \<and> snd cl < shape m ! fst cl)"
  by (auto simp: valid_cell_def shape_def)

lemma shape_set_cell [simp]: "shape (set_cell cl c m) = shape m"
proof (cases "fst cl < length (columns m)")
  case True
  then show ?thesis
    by (simp add: shape_def set_cell_def map_update list_update_same_conv)
next
  case False
  then show ?thesis by (simp add: shape_def set_cell_def list_update_beyond)
qed

lemma shape_set_update [simp]: "shape (set_update cl u m) = shape m"
  by (simp add: set_update_def)

lemma shape_clearTimeout [simp]: "shape (clearTimeout h m) = shape m"
  by (simp add: shape_def)

lemma shape_setTimeout [simp]: "shape (snd (setTimeout a d m)) = shape m"
  by (simp add: shape_def)

lemma shape_setInterval [simp]: "shape (snd (setInterval a d m)) = shape m"
  by (simp add: shape_def)

lemma shape_Math_random [simp]: "shape (snd (Math_random rnd m)) = shape m"
  by (simp add: shape_def)

lemma shape_droplet_cell [simp]: "shape (droplet_cell cfg cl char dly prog m) = shape m"
proof -
  obtain tm m2 where st: "setTimeout (AUpdateCell cl char) dly (clearTimeout (timer (get_update m cl)) m) = (tm, m2)"
    by (cases "setTimeout (AUpdateCell cl char) dly (clearTimeout (timer (get_update m cl)) m)")
  then have "shape m2 = shape m"
    by (metis shape_clearTimeout shape_setTimeout snd_conv)
  then show ?thesis using st by (simp add: droplet_cell_def)
qed

lemma shape_droplet_char [simp]:
  "shape (snd (droplet_char cfg rnd clr chars i prev m)) = shape m"
  by (simp add: droplet_char_def Math_random_def Let_def shape_def)

text \<open>
  \<^verbatim>\<open>
  for (let cell = topCell, i = 0; cell; cell = cell.nextCell, i++) { ... delay += progression }
  \<close>
\<close>

function createDroplet_loop ::
  "config \<Rightarrow> (nat \<Rightarrow> real) \<Rightarrow> bool \<Rightarrow> jsval list \<Rightarrow> int \<Rightarrow> cellref option \<Rightarrow> nat \<Rightarrow> int
     \<Rightarrow> jsval \<Rightarrow> monitor \<Rightarrow> monitor" where
  "createDroplet_loop cfg rnd clearScreen charList prog cell i dly previousChar m =
     (case cell of
        None \<Rightarrow> m
      | Some cl \<Rightarrow>
          if \<not> valid_cell m cl then m
          else
            (case droplet_char cfg rnd clearScreen charList i previousChar m of
               (char, m1) \<Rightarrow>
                 (let m2 = droplet_cell cfg cl char dly prog m1
                  in createDroplet_loop cfg rnd clearScreen charList prog (nextCell m2 cl)
                       (Suc i) (dly + prog) char m2)))"
  by pat_completeness auto
termination
proof (relation "measure (\<lambda>(cfg, rnd, clearScreen, charList, prog, cell, i, dly, prev, m).
          case cell of None \<Rightarrow> 0 | Some cl \<Rightarrow> Suc (length (columns m ! fst cl) - snd cl))",
       goal_cases)
  case 1
  show ?case by simp
next
  case (2 cfg rnd clearScreen charList prog cell i dly previousChar m cl char m1 m2)
  have m1: "m1 = snd (droplet_char cfg rnd clearScreen charList i previousChar m)"
    using 2(3) by (metis snd_conv)
  have sh: "shape (droplet_cell cfg cl char dly prog m1) = shape m"
    using m1 by simp
  have v: "fst cl < length (columns m)" "snd cl < length (columns m ! fst cl)"
    using 2 by (simp_all add: valid_cell_def)
  have "length (columns (droplet_cell cfg cl char dly prog m1) ! fst cl) = shape m ! fst cl"
    using sh v(1) by (metis length_map nth_map shape_def)
  then have len: "length (columns (droplet_cell cfg cl char dly prog m1) ! fst cl)
                  = length (columns m ! fst cl)"
    using v(1) by (simp add: shape_def)
  have m2: "m2 = droplet_cell cfg cl char dly prog m1" using 2 by simp
  show ?case
    using len v m2 \<open>cell = Some cl\<close>
    by (auto simp: nextCell_def valid_cell_def split: option.splits)
qed

text \<open>
  \<open>monitor.createDroplet(topCell, {clearScreen = false, charList = []})\<close>: one
  progression for the whole droplet, then the walk down the column.
\<close>

definition createDroplet ::
  "config \<Rightarrow> (nat \<Rightarrow> real) \<Rightarrow> cellref \<Rightarrow> bool \<Rightarrow> jsval list \<Rightarrow> monitor \<Rightarrow> monitor" where
  "createDroplet cfg rnd topCell clearScreen charList m =
     (case Math_random rnd m of
        (r, m1) \<Rightarrow>
          (let progression = random (real_of_int (minCharProgression cfg))
                                    (real_of_int (maxCharProgression cfg)) r
           in createDroplet_loop cfg rnd clearScreen charList progression (Some topCell) 0 0
                JNull m1))"


section \<open>The main loop\<close>

text \<open>
  \<open>column[i] = v\<close> on an array: the array grows to hold index \<open>i\<close>, and the holes
  left behind read as \<open>undefined\<close>.
\<close>

definition arr_set :: "jsval list \<Rightarrow> nat \<Rightarrow> jsval \<Rightarrow> jsval list" where
  "arr_set xs i v = (xs @ replicate (Suc i - length xs) JUndefined)[i := v]"

text \<open>
  \<^verbatim>\<open>
  let column = charTableByColumn[j]
  if (!column) { column = charTableByColumn[j] = [] }
  column[i] = row[j]
  \<close>
\<close>

definition put_column :: "jsval list list \<Rightarrow> nat \<Rightarrow> nat \<Rightarrow> jsval \<Rightarrow> jsval list list" where
  "put_column tbl j i v =
     (if j < length tbl then tbl[j := arr_set (tbl ! j) i v]
      else tbl @ replicate (j - length tbl) [] @ [arr_set [] i v])"

fun transpose_row :: "nat \<Rightarrow> jsval list \<Rightarrow> nat \<Rightarrow> jsval list list \<Rightarrow> jsval list list" where
  "transpose_row i [] j tbl = tbl"
| "transpose_row i (v # vs) j tbl = transpose_row i vs (Suc j) (put_column tbl j i v)"

fun transpose_table :: "jsval list \<Rightarrow> nat \<Rightarrow> jsval list list \<Rightarrow> jsval list list" where
  "transpose_table [] i tbl = tbl"
| "transpose_table (row # rows) i tbl =
     transpose_table rows (Suc i)
       (case row of JArr vs \<Rightarrow> transpose_row i vs 0 tbl | _ \<Rightarrow> tbl)"

definition charTableByColumn :: "mainLoop_options \<Rightarrow> jsval list list" where
  "charTableByColumn opts =
     (if \<not> ml_clearScreen opts \<and> length (ml_charTable opts) > 0
      then transpose_table (ml_charTable opts) 0 [] else [])"

text \<open>
  \<^verbatim>\<open>
  for (let i = 0, length = monitor.topCells.length; i < length; i++) {
    if (ignoreColumns.includes(i)) { continue }
    const topCell = monitor.topCells[i]
    const delay = random(minCharStartDelay, maxCharStartDelay)
    topCell.update.timer = setTimeout(monitor.createDroplet, delay,
      topCell, {clearScreen, charList: charTableByColumn[i]})
  }
  \<close>
  A column with no entry in \<open>charTableByColumn\<close> passes \<open>undefined\<close>, which
  \<open>createDroplet\<close> replaces by its default \<open>[]\<close>.
\<close>

fun mainLoop_loop ::
  "config \<Rightarrow> (nat \<Rightarrow> real) \<Rightarrow> bool \<Rightarrow> jsval list list \<Rightarrow> int list \<Rightarrow> cellref list \<Rightarrow> nat
     \<Rightarrow> monitor \<Rightarrow> monitor" where
  "mainLoop_loop cfg rnd clearScreen tbl ignoreColumns [] i m = m"
| "mainLoop_loop cfg rnd clearScreen tbl ignoreColumns (topCell # rest) i m =
     (if int i \<in> set ignoreColumns
      then mainLoop_loop cfg rnd clearScreen tbl ignoreColumns rest (Suc i) m
      else
        (case Math_random rnd m of
           (r, m1) \<Rightarrow>
             (let dly = random (real_of_int (minCharStartDelay cfg))
                               (real_of_int (maxCharStartDelay cfg)) r
              in case setTimeout
                        (ACreateDroplet topCell clearScreen
                           (if i < length tbl then tbl ! i else [])) dly m1 of
                   (tm, m2) \<Rightarrow>
                     mainLoop_loop cfg rnd clearScreen tbl ignoreColumns rest (Suc i)
                       (set_update topCell ((get_update m2 topCell)\<lparr>timer := Some tm\<rparr>) m2))))"

definition mainLoop :: "config \<Rightarrow> (nat \<Rightarrow> real) \<Rightarrow> mainLoop_options \<Rightarrow> monitor \<Rightarrow> monitor" where
  "mainLoop cfg rnd opts m =
     mainLoop_loop cfg rnd (ml_clearScreen opts) (charTableByColumn opts)
       (ml_ignoreColumns opts) (topCells m) 0 m"

section \<open>The lifecycle controller\<close>

text \<open>
  \<^verbatim>\<open>
  const startFunction = () => {
    clearInterval(timers.mainLoopInterval)
    monitor.mainLoop()
    timers.mainLoopInterval = setInterval(monitor.mainLoop, mainLoopInterval)
  }
  \<close>
\<close>

definition startFunction :: "config \<Rightarrow> (nat \<Rightarrow> real) \<Rightarrow> monitor \<Rightarrow> monitor" where
  "startFunction cfg rnd m =
     (let m1 = clearInterval (mainLoopInterval_t (timers m)) m;
          m2 = mainLoop cfg rnd mainLoop_defaults m1
      in case setInterval (AMainLoop mainLoop_defaults) (mainLoopInterval cfg) m2 of
           (tm, m3) \<Rightarrow> m3\<lparr>timers := (timers m3)\<lparr>mainLoopInterval_t := Some tm\<rparr>\<rparr>)"

text \<open>\<open>for (const cell of cellsToPause) { clearTimeout(cell.update.timer) }\<close>\<close>

fun pauseAtOnce :: "cellref list \<Rightarrow> monitor \<Rightarrow> monitor" where
  "pauseAtOnce [] m = m"
| "pauseAtOnce (cl # rest) m = pauseAtOnce rest (clearTimeout (timer (get_update m cl)) m)"

text \<open>
  \<^verbatim>\<open>
  for (const topCell of monitor.topCells) {
    const dropletDelay = random(200, 2000)
    setTimeout(monitor.createDroplet, dropletDelay, topCell, {clearScreen: true})
  }
  \<close>
\<close>

fun clearing_droplets :: "(nat \<Rightarrow> real) \<Rightarrow> cellref list \<Rightarrow> monitor \<Rightarrow> monitor" where
  "clearing_droplets rnd [] m = m"
| "clearing_droplets rnd (topCell # rest) m =
     (case Math_random rnd m of
        (r, m1) \<Rightarrow>
          clearing_droplets rnd rest
            (snd (setTimeout (ACreateDroplet topCell True []) (random 200 2000 r) m1)))"

definition stopFunction :: "(nat \<Rightarrow> real) \<Rightarrow> bool \<Rightarrow> monitor \<Rightarrow> monitor" where
  "stopFunction rnd clearScreen m =
     (let m1 = clearInterval (mainLoopInterval_t (timers m)) m;
          m2 = pauseAtOnce (cells m1) m1
      in if clearScreen then clearing_droplets rnd (topCells m2) m2 else m2)"

text \<open>
  \<open>[_stop](options = {})\<close> once its options are an object:
  \<open>let {delay = 0, clearScreen = false} = options\<close>.
\<close>

definition stop_body :: "(nat \<Rightarrow> real) \<Rightarrow> stop_options \<Rightarrow> monitor \<Rightarrow> monitor" where
  "stop_body rnd options m =
     (let dly = (case to_delay options of None \<Rightarrow> 0 | Some d \<Rightarrow> d);
          clearScreen = (case to_clearScreen options of None \<Rightarrow> False | Some b \<Rightarrow> b);
          m1 = clearTimeout (stop_t (timers m)) m
      in if dly > 0
         then (case setTimeout (AStopFunction clearScreen) dly m1 of
                 (tm, m2) \<Rightarrow> m2\<lparr>timers := (timers m2)\<lparr>stop_t := Some tm\<rparr>\<rparr>)
         else stopFunction rnd clearScreen m1)"

text \<open>
  Destructuring an options argument: \<open>undefined\<close> takes the default \<open>{}\<close>, and
  \<open>null\<close> cannot be destructured.
\<close>

definition destructure :: "'a \<Rightarrow> 'a arg \<Rightarrow> error + 'a" where
  "destructure dflt a =
     (case a of Missing \<Rightarrow> Inr dflt | Null \<Rightarrow> Inl TypeError | Obj options \<Rightarrow> Inr options)"

definition no_stop_options :: stop_options where
  "no_stop_options = \<lparr>to_delay = None, to_clearScreen = None\<rparr>"

definition priv_stop :: "(nat \<Rightarrow> real) \<Rightarrow> stop_options arg \<Rightarrow> monitor \<Rightarrow> error + monitor" where
  "priv_stop rnd a m =
     (case destructure no_stop_options a of
        Inl e \<Rightarrow> Inl e
      | Inr options \<Rightarrow> Inr (stop_body rnd options m))"

text \<open>
  \<open>[_start](options = {})\<close>. The options are read by
  \<^verbatim>\<open>
  if (options) {
    if (options.delay) { initialDelay = options.delay }
    if (options.duration) { mainLoopDuration = options.duration }
  }
  \<close>
  so that \<open>null\<close> options, a delay of \<open>0\<close> and a duration of \<open>0\<close> all leave the
  configured values in place.
\<close>

definition no_start_options :: start_options where
  "no_start_options = \<lparr>so_delay = None, so_duration = None\<rparr>"

definition start_options_of :: "start_options arg \<Rightarrow> start_options" where
  "start_options_of a = (case a of Obj options \<Rightarrow> options | _ \<Rightarrow> no_start_options)"

definition priv_start :: "config \<Rightarrow> (nat \<Rightarrow> real) \<Rightarrow> start_options arg \<Rightarrow> monitor \<Rightarrow> monitor" where
  "priv_start cfg rnd a m =
     (let options = start_options_of a;
          initialDelay = (case so_delay options of
                            Some d \<Rightarrow> if d \<noteq> 0 then d else initialDelay cfg
                          | None \<Rightarrow> initialDelay cfg);
          mainLoopDuration = (case so_duration options of
                            Some d \<Rightarrow> if d \<noteq> 0 then Some d else mainLoopDuration cfg
                          | None \<Rightarrow> mainLoopDuration cfg);
          m1 = clearTimeout (start_t (timers m)) m;
          m2 = (if initialDelay > 0
                then (case setTimeout AStartFunction initialDelay m1 of
                        (tm, m') \<Rightarrow> m'\<lparr>timers := (timers m')\<lparr>start_t := Some tm\<rparr>\<rparr>)
                else startFunction cfg rnd m1)
      in case mainLoopDuration of
           Some d \<Rightarrow> stop_body rnd \<lparr>to_delay = Some (d + initialDelay), to_clearScreen = None\<rparr> m2
         | None \<Rightarrow> m2)"

text \<open>\<open>const cellsToPause = onlyTopCells ? monitor.topCells : monitor.cells\<close>\<close>

definition cellsToPause :: "bool \<Rightarrow> monitor \<Rightarrow> cellref list" where
  "cellsToPause onlyTopCells m = (if onlyTopCells then topCells m else cells m)"

text \<open>
  \<^verbatim>\<open>
  for (const cell of cellsToPause) {
    const cellDelay = random(minPauseDelay, maxPauseDelay)
    setTimeout(clearTimeout, cellDelay, cell.update.timer)
  }
  \<close>
\<close>

fun pause_staggered :: "(nat \<Rightarrow> real) \<Rightarrow> int \<Rightarrow> int \<Rightarrow> cellref list \<Rightarrow> monitor \<Rightarrow> monitor" where
  "pause_staggered rnd minPauseDelay maxPauseDelay [] m = m"
| "pause_staggered rnd minPauseDelay maxPauseDelay (cl # rest) m =
     (case Math_random rnd m of
        (r, m1) \<Rightarrow>
          (let cellDelay = random (real_of_int minPauseDelay) (real_of_int maxPauseDelay) r
           in pause_staggered rnd minPauseDelay maxPauseDelay rest
                (snd (setTimeout (AClearTimeout (timer (get_update m1 cl))) cellDelay m1))))"

text \<open>The callback that \<open>[_pause]\<close> queues.\<close>

definition pauseFunction ::
  "(nat \<Rightarrow> real) \<Rightarrow> bool \<Rightarrow> bool \<Rightarrow> int \<Rightarrow> int \<Rightarrow> monitor \<Rightarrow> monitor" where
  "pauseFunction rnd onlyTopCells allAtOnce minPauseDelay maxPauseDelay m =
     (let m1 = clearInterval (mainLoopInterval_t (timers m)) m
      in if allAtOnce then pauseAtOnce (cellsToPause onlyTopCells m1) m1
         else
           (let m2 = pause_staggered rnd minPauseDelay maxPauseDelay
                       (cellsToPause onlyTopCells m1) m1
            in snd (setTimeout (APauseAtOnce onlyTopCells) maxPauseDelay m2)))"

definition no_pause_options :: pause_options where
  "no_pause_options =
     \<lparr>po_delay = None, po_onlyTopCells = None, po_allAtOnce = None,
      po_minPauseDelay = None, po_maxPauseDelay = None\<rparr>"

text \<open>
  \<open>[_pause](options = {})\<close> once its options are an object, with the defaults
  \<open>delay = 0, onlyTopCells = false, allAtOnce = false, minPauseDelay = 0,
  maxPauseDelay = 1000\<close>.
\<close>

definition pause_body :: "pause_options \<Rightarrow> monitor \<Rightarrow> monitor" where
  "pause_body options m =
     (let dly = (case po_delay options of None \<Rightarrow> 0 | Some d \<Rightarrow> d);
          onlyTopCells = (case po_onlyTopCells options of None \<Rightarrow> False | Some b \<Rightarrow> b);
          allAtOnce = (case po_allAtOnce options of None \<Rightarrow> False | Some b \<Rightarrow> b);
          minPauseDelay = (case po_minPauseDelay options of None \<Rightarrow> 0 | Some d \<Rightarrow> d);
          maxPauseDelay = (case po_maxPauseDelay options of None \<Rightarrow> 1000 | Some d \<Rightarrow> d);
          m1 = clearTimeout (pause_t (timers m)) m
      in case setTimeout (APauseFunction onlyTopCells allAtOnce minPauseDelay maxPauseDelay)
                dly m1 of
           (tm, m2) \<Rightarrow> m2\<lparr>timers := (timers m2)\<lparr>pause_t := Some tm\<rparr>\<rparr>)"

definition priv_pause :: "pause_options arg \<Rightarrow> monitor \<Rightarrow> error + monitor" where
  "priv_pause a m =
     (case destructure no_pause_options a of
        Inl e \<Rightarrow> Inl e
      | Inr options \<Rightarrow> Inr (pause_body options m))"


text \<open>
  The walk of \<open>resumeFunction\<close> down one column:
  \<^verbatim>\<open>
  for (let cell = topCell; cell; cell = cell.nextCell) {
    const update = cell.update
    if (update.isUpdated) { continue }      // || !update.function, in the simpler one
    update.timer = setTimeout(monitor.updateCell, cellDelay, cell, update.nextChar)
    cellDelay += update.progression
  }
  \<close>
  A progression that is still \<open>null\<close> adds \<open>0\<close>.
\<close>

definition resume_skips :: "config \<Rightarrow> update_state \<Rightarrow> bool" where
  "resume_skips cfg u = (isUpdated u \<or> (variant cfg = Simple \<and> \<not> has_function u))"

definition resume_cell :: "cellref \<Rightarrow> int \<Rightarrow> monitor \<Rightarrow> monitor" where
  "resume_cell cl cellDelay m =
     (case setTimeout (AUpdateCell cl (nextChar (get_update m cl))) cellDelay m of
        (tm, m1) \<Rightarrow> set_update cl ((get_update m1 cl)\<lparr>timer := Some tm\<rparr>) m1)"

lemma shape_resume_cell [simp]: "shape (resume_cell cl d m) = shape m"
proof -
  obtain tm m1 where st: "setTimeout (AUpdateCell cl (nextChar (get_update m cl))) d m = (tm, m1)"
    by (cases "setTimeout (AUpdateCell cl (nextChar (get_update m cl))) d m")
  then have "shape m1 = shape m" by (metis shape_setTimeout snd_conv)
  then show ?thesis using st by (simp add: resume_cell_def)
qed

lemma nextCell_measure:
  assumes "valid_cell m cl" and "shape m' = shape m" and "nextCell m' cl = Some cl'"
  shows "length (columns m' ! fst cl') - snd cl' < length (columns m ! fst cl) - snd cl"
proof -
  have v: "fst cl < length (columns m)" "snd cl < length (columns m ! fst cl)"
    using assms(1) by (simp_all add: valid_cell_def)
  have cl': "cl' = (fst cl, Suc (snd cl))" and v': "valid_cell m' (fst cl, Suc (snd cl))"
    using assms(3) by (auto simp: nextCell_def split: if_splits)
  have "length (columns m' ! fst cl) = shape m' ! fst cl"
    using v' by (simp add: valid_cell_def shape_def)
  also have "\<dots> = length (columns m ! fst cl)"
    using assms(2) v(1) by (simp add: shape_def)
  finally show ?thesis using v cl' by simp
qed

function resume_walk :: "config \<Rightarrow> cellref option \<Rightarrow> int \<Rightarrow> monitor \<Rightarrow> monitor" where
  "resume_walk cfg cell cellDelay m =
     (case cell of
        None \<Rightarrow> m
      | Some cl \<Rightarrow>
          if \<not> valid_cell m cl then m
          else if resume_skips cfg (get_update m cl)
          then resume_walk cfg (nextCell m cl) cellDelay m
          else
            (let m1 = resume_cell cl cellDelay m
             in resume_walk cfg (nextCell m1 cl)
                  (cellDelay + (case progression (get_update m cl) of None \<Rightarrow> 0 | Some p \<Rightarrow> p))
                  m1))"
  by pat_completeness auto
termination
proof (relation "measure (\<lambda>(cfg, cell, cellDelay, m).
          case cell of None \<Rightarrow> 0 | Some cl \<Rightarrow> Suc (length (columns m ! fst cl) - snd cl))",
       goal_cases)
  case 1
  show ?case by simp
next
  case (2 cfg cell cellDelay m cl)
  then show ?case
    using nextCell_measure [of m cl m]
    by (auto split: option.splits)
next
  case (3 cfg cell cellDelay m cl m1)
  then show ?case
    using nextCell_measure [of m cl "resume_cell cl cellDelay m"]
    by (auto split: option.splits)
qed

text \<open>\<open>for (const topCell of monitor.topCells) { let cellDelay = 0; ... }\<close>\<close>

fun resume_columns :: "config \<Rightarrow> cellref list \<Rightarrow> monitor \<Rightarrow> monitor" where
  "resume_columns cfg [] m = m"
| "resume_columns cfg (topCell # rest) m =
     resume_columns cfg rest (resume_walk cfg (Some topCell) 0 m)"

text \<open>
  \<^verbatim>\<open>
  const resumeFunction = () => {
    this[_start]()
    if (!onlyTopCells) { for (const topCell of monitor.topCells) { ... } }
  }
  \<close>
\<close>

definition resumeFunction :: "config \<Rightarrow> (nat \<Rightarrow> real) \<Rightarrow> bool \<Rightarrow> monitor \<Rightarrow> monitor" where
  "resumeFunction cfg rnd onlyTopCells m =
     (let m1 = priv_start cfg rnd Missing m
      in if \<not> onlyTopCells then resume_columns cfg (topCells m1) m1 else m1)"

definition no_resume_options :: resume_options where
  "no_resume_options = \<lparr>ro_delay = None, ro_onlyTopCells = None\<rparr>"

text \<open>
  \<open>[_resume](options = {})\<close> once its options are an object, with the defaults
  \<open>delay = 0, onlyTopCells = false\<close>.
\<close>

definition resume_body :: "config \<Rightarrow> (nat \<Rightarrow> real) \<Rightarrow> resume_options \<Rightarrow> monitor \<Rightarrow> monitor" where
  "resume_body cfg rnd options m =
     (let dly = (case ro_delay options of None \<Rightarrow> 0 | Some d \<Rightarrow> d);
          onlyTopCells = (case ro_onlyTopCells options of None \<Rightarrow> False | Some b \<Rightarrow> b);
          m1 = clearTimeout (resume_t (timers m)) m
      in if dly > 0
         then (case setTimeout (AResumeFunction onlyTopCells) dly m1 of
                 (tm, m2) \<Rightarrow> m2\<lparr>timers := (timers m2)\<lparr>resume_t := Some tm\<rparr>\<rparr>)
         else resumeFunction cfg rnd onlyTopCells m1)"

definition priv_resume ::
  "config \<Rightarrow> (nat \<Rightarrow> real) \<Rightarrow> resume_options arg \<Rightarrow> monitor \<Rightarrow> error + monitor" where
  "priv_resume cfg rnd a m =
     (case destructure no_resume_options a of
        Inl e \<Rightarrow> Inl e
      | Inr options \<Rightarrow> Inr (resume_body cfg rnd options m))"

text \<open>
  \<open>[_glitch](glitchFunction, options = {})\<close>: the caller's function is queued after
  \<open>delay\<close> (default \<open>0\<close>). What that function does is the caller's.
\<close>

definition no_glitch_options :: glitch_options where
  "no_glitch_options = \<lparr>go_delay = None, go_duration = None\<rparr>"

definition priv_glitch :: "glitch_options arg \<Rightarrow> monitor \<Rightarrow> error + monitor" where
  "priv_glitch a m =
     (case destructure no_glitch_options a of
        Inl e \<Rightarrow> Inl e
      | Inr options \<Rightarrow>
          Inr (snd (setTimeout AGlitch (case go_delay options of None \<Rightarrow> 0 | Some d \<Rightarrow> d) m)))"


section \<open>The image compositor\<close>

text \<open>\<open>asciiImage.split(/\n/g)\<close>: the lines of a text, at least one.\<close>

fun split_lines :: "string \<Rightarrow> string list" where
  "split_lines [] = [[]]"
| "split_lines (c # cs) =
     (if c = CHR 0x0A then [] # split_lines cs
      else (case split_lines cs of [] \<Rightarrow> [[c]] | r # rs \<Rightarrow> (c # r) # rs))"

text \<open>
  \<^verbatim>\<open>
  if (!Array.isArray(asciiImage)) {
    if (typeof asciiImage !== 'string') { throw new Error('ASCII image must be ...') }
    asciiImage = asciiImage.split(/\n/g).map(row => row.split(''))
  } else if (!Array.isArray(asciiImage[0])) { throw new Error('ASCII image must be ...') }
  \<close>
\<close>

definition image_rows :: "jsval \<Rightarrow> error + jsval list" where
  "image_rows asciiImage =
     (case asciiImage of
        JArr rows \<Rightarrow> if \<not> isArray (arr_index rows 0) then Inl ImageError else Inr rows
      | JStr text \<Rightarrow> Inr (map (\<lambda>row. JArr (map (\<lambda>c. JStr [c]) row)) (split_lines text))
      | _ \<Rightarrow> Inl ImageError)"

text \<open>
  \<open>row.length\<close>: the length of an array or a string, a \<open>TypeError\<close> on \<open>null\<close> and
  \<open>undefined\<close>, and \<open>undefined\<close> on a boolean or a number, which \<open>Math.max\<close> reads
  as \<open>NaN\<close>.
\<close>

fun row_length :: "jsval \<Rightarrow> error + num" where
  "row_length (JArr xs) = Inr (Num (int (length xs)))"
| "row_length (JStr s) = Inr (Num (int (length s)))"
| "row_length JUndefined = Inl TypeError"
| "row_length JNull = Inl TypeError"
| "row_length (JBool b) = Inr NaN"
| "row_length (JNum n) = Inr NaN"

text \<open>\<open>asciiImage.map(row => row.length)\<close>: the first row that throws ends the map.\<close>

fun row_lengths :: "jsval list \<Rightarrow> error + num list" where
  "row_lengths [] = Inr []"
| "row_lengths (row # rows) =
     (case row_length row of
        Inl e \<Rightarrow> Inl e
      | Inr n \<Rightarrow> (case row_lengths rows of Inl e \<Rightarrow> Inl e | Inr ns \<Rightarrow> Inr (n # ns)))"

text \<open>\<open>Math.max(...ns)\<close>: \<open>-Infinity\<close> of nothing, \<open>NaN\<close> as soon as one is.\<close>

fun num_max :: "num \<Rightarrow> num \<Rightarrow> num" where
  "num_max NaN b = NaN"
| "num_max a NaN = NaN"
| "num_max NegInfinity b = b"
| "num_max a NegInfinity = a"
| "num_max (Num a) (Num b) = Num (max a b)"

definition Math_max :: "num list \<Rightarrow> num" where
  "Math_max ns = foldl num_max NegInfinity ns"

fun num_add :: "num \<Rightarrow> num \<Rightarrow> num" where
  "num_add NaN b = NaN"
| "num_add a NaN = NaN"
| "num_add NegInfinity b = NegInfinity"
| "num_add a NegInfinity = NegInfinity"
| "num_add (Num a) (Num b) = Num (a + b)"

text \<open>
  \<open>new Array(n).fill(v)\<close>: a \<open>RangeError\<close> unless \<open>n\<close> is an integer from \<open>0\<close> to
  \<open>2^32 - 1\<close>.
\<close>

definition new_Array :: "num \<Rightarrow> jsval \<Rightarrow> error + jsval list" where
  "new_Array n v =
     (case n of
        Num k \<Rightarrow> if 0 \<le> k \<and> k < 2 ^ 32 then Inr (replicate (nat k) v) else Inl RangeError
      | _ \<Rightarrow> Inl RangeError)"

text \<open>
  \<open>asciiImage[i][j]\<close> for the row \<open>asciiImage[i]\<close>: an entry of an array, a
  character of a string, \<open>undefined\<close> out of range or on a boolean or a number.
\<close>

fun image_index :: "jsval \<Rightarrow> nat \<Rightarrow> error + jsval" where
  "image_index (JArr xs) j = Inr (arr_index xs j)"
| "image_index (JStr s) j = Inr (str_index s (int j))"
| "image_index JUndefined j = Inl TypeError"
| "image_index JNull j = Inl TypeError"
| "image_index (JBool b) j = Inr JUndefined"
| "image_index (JNum n) j = Inr JUndefined"

text \<open>
  \<^verbatim>\<open>
  for (let j = 0; j < imageWidth; j++) {
    const char = asciiImage[i][j]
    row.push(char || paddingChar)
  }
  \<close>
  The loop runs for \<open>j\<close> in \<open>js\<close>; no \<open>j\<close> is below \<open>NaN\<close> or \<open>-Infinity\<close>.
\<close>

fun image_cells :: "jsval \<Rightarrow> jsval \<Rightarrow> nat list \<Rightarrow> error + jsval list" where
  "image_cells row paddingChar [] = Inr []"
| "image_cells row paddingChar (j # js) =
     (case image_index row j of
        Inl e \<Rightarrow> Inl e
      | Inr char \<Rightarrow>
          (case image_cells row paddingChar js of
             Inl e \<Rightarrow> Inl e
           | Inr cs \<Rightarrow> Inr (js_or char paddingChar # cs)))"

definition columns_below :: "num \<Rightarrow> nat list" where
  "columns_below w = (case w of Num k \<Rightarrow> [0..<nat k] | _ \<Rightarrow> [])"

text \<open>Sequencing of steps that may throw.\<close>

definition and_then :: "error + 'a \<Rightarrow> ('a \<Rightarrow> error + 'b) \<Rightarrow> error + 'b" where
  "and_then x f = (case x of Inl e \<Rightarrow> Inl e | Inr v \<Rightarrow> f v)"

text \<open>
  A row of margin: \<open>new Array(totalWidth).fill(null)\<close>, and a loop
  \<open>for (let i = 0; i < n; i++) { ...; imageData.push(row) }\<close> whose body builds the
  same row each time: no row when \<open>n \<le> 0\<close>, and the body's error on its first turn.
\<close>

definition repeat_row :: "int \<Rightarrow> (error + jsval list) \<Rightarrow> error + jsval list" where
  "repeat_row n row =
     (if n \<le> 0 then Inr [] else and_then row (\<lambda>r. Inr (replicate (nat n) (JArr r))))"

text \<open>
  \<^verbatim>\<open>
  let row = new Array(marginLeft).fill(null)
  row = row.concat(
    new Array(paddingLeft + imageWidth + paddingRight).fill(paddingChar),
    new Array(marginRight).fill(null))
  \<close>
\<close>

definition padding_row :: "int \<Rightarrow> int \<Rightarrow> num \<Rightarrow> int \<Rightarrow> int \<Rightarrow> jsval \<Rightarrow> error + jsval list" where
  "padding_row marginLeft paddingLeft imageWidth paddingRight marginRight paddingChar =
     and_then (new_Array (Num marginLeft) JNull) (\<lambda>a.
     and_then (new_Array (num_add (num_add (Num paddingLeft) imageWidth) (Num paddingRight))
             paddingChar) (\<lambda>b.
     and_then (new_Array (Num marginRight) JNull) (\<lambda>c. Inr (a @ b @ c))))"

text \<open>
  \<^verbatim>\<open>
  let row = new Array(marginLeft).fill(null).concat(new Array(paddingLeft).fill(paddingChar))
  for (let j = 0; j < imageWidth; j++) { ... }
  row = row.concat(new Array(paddingRight).fill(paddingChar),
    new Array(marginRight).fill(null))
  \<close>
\<close>

definition image_row ::
  "int \<Rightarrow> int \<Rightarrow> num \<Rightarrow> int \<Rightarrow> int \<Rightarrow> jsval \<Rightarrow> jsval \<Rightarrow> error + jsval list" where
  "image_row marginLeft paddingLeft imageWidth paddingRight marginRight paddingChar row =
     and_then (new_Array (Num marginLeft) JNull) (\<lambda>a.
     and_then (new_Array (Num paddingLeft) paddingChar) (\<lambda>b.
     and_then (image_cells row paddingChar (columns_below imageWidth)) (\<lambda>cs.
     and_then (new_Array (Num paddingRight) paddingChar) (\<lambda>d.
     and_then (new_Array (Num marginRight) JNull) (\<lambda>e. Inr (a @ b @ cs @ d @ e))))))"

fun image_rows_data ::
  "int \<Rightarrow> int \<Rightarrow> num \<Rightarrow> int \<Rightarrow> int \<Rightarrow> jsval \<Rightarrow> jsval list \<Rightarrow> error + jsval list" where
  "image_rows_data ml pl w pr mr pc [] = Inr []"
| "image_rows_data ml pl w pr mr pc (row # rows) =
     and_then (image_row ml pl w pr mr pc row) (\<lambda>r.
     and_then (image_rows_data ml pl w pr mr pc rows) (\<lambda>rs. Inr (JArr r # rs)))"

text \<open>The options of \<open>draw\<close> with their defaults.\<close>

definition opt_int :: "int \<Rightarrow> int option \<Rightarrow> int" where
  "opt_int d v = (case v of None \<Rightarrow> d | Some n \<Rightarrow> n)"

definition no_draw_options :: draw_options where
  "no_draw_options =
     \<lparr>do_delay = None, do_duration = None, do_marginTop = None, do_paddingTop = None,
      do_marginBottom = None, do_paddingBottom = None, do_marginRight = None,
      do_paddingRight = None, do_marginLeft = None, do_paddingLeft = None,
      do_paddingChar = None, do_keepOnNotAffectedColumns = None\<rparr>"

text \<open>
  The margins and paddings of \<open>draw\<close>: \<open>2\<close> and \<open>1\<close> on every side unless given,
  and the padding character \<open>''\<close>. The table \<open>imageData\<close> that \<open>[_draw]\<close>
  composes comes with the width of the image:
  the rows of top margin, of top padding, of the image, of bottom padding and of bottom
  margin, in this order.
\<close>

definition marginTop_of :: "draw_options \<Rightarrow> int" where
  "marginTop_of options = opt_int 2 (do_marginTop options)"

definition paddingTop_of :: "draw_options \<Rightarrow> int" where
  "paddingTop_of options = opt_int 1 (do_paddingTop options)"

definition marginBottom_of :: "draw_options \<Rightarrow> int" where
  "marginBottom_of options = opt_int 2 (do_marginBottom options)"

definition paddingBottom_of :: "draw_options \<Rightarrow> int" where
  "paddingBottom_of options = opt_int 1 (do_paddingBottom options)"

definition marginRight_of :: "draw_options \<Rightarrow> int" where
  "marginRight_of options = opt_int 2 (do_marginRight options)"

definition paddingRight_of :: "draw_options \<Rightarrow> int" where
  "paddingRight_of options = opt_int 1 (do_paddingRight options)"

definition marginLeft_of :: "draw_options \<Rightarrow> int" where
  "marginLeft_of options = opt_int 2 (do_marginLeft options)"

definition paddingLeft_of :: "draw_options \<Rightarrow> int" where
  "paddingLeft_of options = opt_int 1 (do_paddingLeft options)"

definition paddingChar_of :: "draw_options \<Rightarrow> jsval" where
  "paddingChar_of options = (case do_paddingChar options of None \<Rightarrow> JStr [] | Some c \<Rightarrow> c)"

definition compose_image :: "jsval \<Rightarrow> draw_options \<Rightarrow> error + (jsval list \<times> num)" where
  "compose_image asciiImage options =
     and_then (image_rows asciiImage) (\<lambda>rows.
     and_then (row_lengths rows) (\<lambda>ns.
       (let imageWidth = Math_max ns;
            totalWidth = num_add (num_add (num_add (num_add (Num (marginLeft_of options))
                           (Num (paddingLeft_of options))) imageWidth)
                           (Num (paddingRight_of options))) (Num (marginRight_of options));
            padding = padding_row (marginLeft_of options) (paddingLeft_of options) imageWidth
                        (paddingRight_of options) (marginRight_of options) (paddingChar_of options)
        in and_then (repeat_row (marginTop_of options) (new_Array totalWidth JNull)) (\<lambda>top.
           and_then (repeat_row (paddingTop_of options) padding) (\<lambda>ptop.
           and_then (image_rows_data (marginLeft_of options) (paddingLeft_of options) imageWidth
                       (paddingRight_of options) (marginRight_of options) (paddingChar_of options)
                       rows) (\<lambda>img.
           and_then (repeat_row (paddingBottom_of options) padding) (\<lambda>pbottom.
           and_then (repeat_row (marginBottom_of options) (new_Array totalWidth JNull)) (\<lambda>bottom.
             Inr (top @ ptop @ img @ pbottom @ bottom, imageWidth)))))))))"

text \<open>
  \<open>[_draw](asciiImage, options = {})\<close>: the options are destructured first, then the
  image is checked and composed, and the callback is queued after \<open>delay\<close> (default
  \<open>1000\<close>; \<open>duration\<close> defaults to \<open>30000\<close>, \<open>keepOnNotAffectedColumns\<close> to
  \<open>true\<close>).
\<close>

definition priv_draw :: "jsval \<Rightarrow> draw_options arg \<Rightarrow> monitor \<Rightarrow> error + monitor" where
  "priv_draw asciiImage a m =
     and_then (destructure no_draw_options a) (\<lambda>options.
     and_then (compose_image asciiImage options) (\<lambda>(imageData, imageWidth).
       Inr (snd (setTimeout
                   (ADrawFunction imageData
                      (opt_int 1000 (do_delay options))
                      (opt_int 30000 (do_duration options))
                      (marginLeft_of options) (paddingLeft_of options) imageWidth
                      (paddingRight_of options)
                      (case do_keepOnNotAffectedColumns options of None \<Rightarrow> True | Some b \<Rightarrow> b))
                   (opt_int 1000 (do_delay options)) m))))"

text \<open>
  The refresh cycle of the fuller implementation's \<open>draw\<close>:
  \<^verbatim>\<open>
  let ignoredColumnIndex = marginLeft
  const ignoreColumns = new Array(paddingLeft + imageWidth + paddingRight)
    .fill(0).map(e => e + ignoredColumnIndex++)
  const timer = setInterval(monitor.mainLoop, monitor.options.mainLoopInterval, {ignoreColumns})
  setTimeout(clearInterval, 2000 + duration, timer)
  \<close>
  An error thrown by \<open>new Array\<close> ends the callback before it has done anything.
\<close>

definition keepFunction :: "config \<Rightarrow> int \<Rightarrow> int \<Rightarrow> num \<Rightarrow> int \<Rightarrow> int \<Rightarrow> monitor \<Rightarrow> monitor" where
  "keepFunction cfg marginLeft paddingLeft imageWidth paddingRight duration m =
     (case new_Array (num_add (num_add (Num paddingLeft) imageWidth) (Num paddingRight))
             (JNum 0) of
        Inl e \<Rightarrow> m
      | Inr zeros \<Rightarrow>
          (let ignoreColumns = map (\<lambda>k. marginLeft + int k) [0..<length zeros]
           in case setInterval
                     (AMainLoop (mainLoop_defaults\<lparr>ml_ignoreColumns := ignoreColumns\<rparr>))
                     (mainLoopInterval cfg) m of
                (tm, m1) \<Rightarrow> snd (setTimeout (AClearTimeout (Some tm)) (2000 + duration) m1)))"

section \<open>Operations deferred until the grid is built\<close>

text \<open>
  \<^verbatim>\<open>
  [_defer](method, ...args) {
    if (this[_monitor].isInitialized && (this[_deferred].length === 0)) { this[method](...args) }
    else { this[_deferred].push({method, args}) }
  }
  \<close>
\<close>

definition run_call :: "config \<Rightarrow> (nat \<Rightarrow> real) \<Rightarrow> call \<Rightarrow> monitor \<Rightarrow> error + monitor" where
  "run_call cfg rnd c m =
     (case c of
        CStart a \<Rightarrow> Inr (priv_start cfg rnd a m)
      | CPause a \<Rightarrow> priv_pause a m
      | CResume a \<Rightarrow> priv_resume cfg rnd a m
      | CStop a \<Rightarrow> priv_stop rnd a m
      | CGlitch a \<Rightarrow> priv_glitch a m
      | CDraw asciiImage a \<Rightarrow> priv_draw asciiImage a m)"

definition priv_defer :: "config \<Rightarrow> (nat \<Rightarrow> real) \<Rightarrow> call \<Rightarrow> monitor \<Rightarrow> error + monitor" where
  "priv_defer cfg rnd c m =
     (if isInitialized m \<and> deferred m = [] then run_call cfg rnd c m
      else Inr (m\<lparr>deferred := deferred m @ [c]\<rparr>))"

text \<open>
  The public operations. Each has the default \<open>options = {}\<close>, which replaces a
  missing argument before the call is deferred.
\<close>

definition given :: "'a \<Rightarrow> 'a arg \<Rightarrow> 'a arg" where
  "given dflt a = (case a of Missing \<Rightarrow> Obj dflt | _ \<Rightarrow> a)"


definition pause :: "config \<Rightarrow> (nat \<Rightarrow> real) \<Rightarrow> pause_options arg \<Rightarrow> monitor \<Rightarrow> error + monitor" where
  "pause cfg rnd a m = priv_defer cfg rnd (CPause (given no_pause_options a)) m"

definition resume :: "config \<Rightarrow> (nat \<Rightarrow> real) \<Rightarrow> resume_options arg \<Rightarrow> monitor \<Rightarrow> error + monitor" where
  "resume cfg rnd a m = priv_defer cfg rnd (CResume (given no_resume_options a)) m"



definition draw ::
  "config \<Rightarrow> (nat \<Rightarrow> real) \<Rightarrow> jsval \<Rightarrow> draw_options arg \<Rightarrow> monitor \<Rightarrow> error + monitor" where
  "draw cfg rnd asciiImage a m = priv_defer cfg rnd (CDraw asciiImage (given no_draw_options a)) m"

text \<open>
  The callback that \<open>[_draw]\<close> queues. The fuller implementation runs
  \<^verbatim>\<open>
  this.pause({delay: 0, onlyTopCells: true})
  setTimeout(monitor.mainLoop, 1500, {charTable: imageData})
  this.resume({delay: delay + duration})
  if (keepOnNotAffectedColumns) { setTimeout(() => { ... }, 2000) }
  \<close>
  and the simpler one \<open>pause\<close>, \<open>resume\<close> and the \<open>setTimeout\<close> of the main loop,
  in this order. Neither call can throw: its options are an object.
\<close>

definition draw_pause :: "config \<Rightarrow> (nat \<Rightarrow> real) \<Rightarrow> monitor \<Rightarrow> monitor" where
  "draw_pause cfg rnd m =
     (case pause cfg rnd
             (Obj (no_pause_options\<lparr>po_delay := Some 0, po_onlyTopCells := Some True\<rparr>)) m of
        Inl e \<Rightarrow> m | Inr m' \<Rightarrow> m')"

definition draw_resume :: "config \<Rightarrow> (nat \<Rightarrow> real) \<Rightarrow> int \<Rightarrow> monitor \<Rightarrow> monitor" where
  "draw_resume cfg rnd dly m =
     (case resume cfg rnd (Obj (no_resume_options\<lparr>ro_delay := Some dly\<rparr>)) m of
        Inl e \<Rightarrow> m | Inr m' \<Rightarrow> m')"

definition drawFunction ::
  "config \<Rightarrow> (nat \<Rightarrow> real) \<Rightarrow> jsval list \<Rightarrow> int \<Rightarrow> int \<Rightarrow> int \<Rightarrow> int \<Rightarrow> num \<Rightarrow> int \<Rightarrow> bool
     \<Rightarrow> monitor \<Rightarrow> monitor" where
  "drawFunction cfg rnd imageData dly duration marginLeft paddingLeft imageWidth paddingRight
       keepOnNotAffectedColumns m =
     (let table = AMainLoop (mainLoop_defaults\<lparr>ml_charTable := imageData\<rparr>);
          m1 = draw_pause cfg rnd m
      in if variant cfg = Simple
         then snd (setTimeout table 1500 (draw_resume cfg rnd (dly + duration) m1))
         else
           (let m2 = snd (setTimeout table 1500 m1);
                m3 = draw_resume cfg rnd (dly + duration) m2
            in if keepOnNotAffectedColumns
               then snd (setTimeout
                           (AKeepFunction marginLeft paddingLeft imageWidth paddingRight duration)
                           2000 m3)
               else m3))"

section \<open>Firing a task\<close>

text \<open>What each callback does when its timer fires.\<close>

fun run_action :: "config \<Rightarrow> (nat \<Rightarrow> real) \<Rightarrow> action \<Rightarrow> monitor \<Rightarrow> monitor" where
  "run_action cfg rnd (ACreateDroplet topCell clearScreen charList) m =
     createDroplet cfg rnd topCell clearScreen charList m"
| "run_action cfg rnd (AUpdateCell cl char) m = updateCell cl char m"
| "run_action cfg rnd (AFade cl char) m = m"
| "run_action cfg rnd AStartFunction m = startFunction cfg rnd m"
| "run_action cfg rnd (AMainLoop opts) m = mainLoop cfg rnd opts m"
| "run_action cfg rnd (APauseFunction onlyTopCells allAtOnce minPauseDelay maxPauseDelay) m =
     pauseFunction rnd onlyTopCells allAtOnce minPauseDelay maxPauseDelay m"
| "run_action cfg rnd (APauseAtOnce onlyTopCells) m = pauseAtOnce (cellsToPause onlyTopCells m) m"
| "run_action cfg rnd (AClearTimeout h) m = clearTimeout h m"
| "run_action cfg rnd (AResumeFunction onlyTopCells) m = resumeFunction cfg rnd onlyTopCells m"
| "run_action cfg rnd (AStopFunction clearScreen) m = stopFunction rnd clearScreen m"
| "run_action cfg rnd AGlitch m = m"
| "run_action cfg rnd (ADrawFunction imageData dly duration ml pl w pr keep) m =
     drawFunction cfg rnd imageData dly duration ml pl w pr keep m"
| "run_action cfg rnd (AKeepFunction ml pl w pr duration) m =
     keepFunction cfg ml pl w pr duration m"

text \<open>
  The task of a handle fires: the clock moves to its due time, a one-shot task leaves
  the queue and a recurring one is queued again one period later, and the callback runs.
\<close>

definition fire :: "config \<Rightarrow> (nat \<Rightarrow> real) \<Rightarrow> handle \<Rightarrow> monitor \<Rightarrow> monitor" where
  "fire cfg rnd h m =
     (case find (\<lambda>t. handle t = h) (pending m) of
        None \<Rightarrow> m
      | Some t \<Rightarrow>
          run_action cfg rnd (act t)
            (m\<lparr>now := max (now m) (due t),
               pending := filter (\<lambda>u. handle u \<noteq> h) (pending m) @
                          (case every t of None \<Rightarrow> [] | Some p \<Rightarrow> [t\<lparr>due := due t + p\<rparr>])\<rparr>))"

text \<open>The task that fires next: the earliest due, the first queued among equals.\<close>

fun earliest :: "task list \<Rightarrow> task option" where
  "earliest [] = None"
| "earliest (t # ts) =
     (case earliest ts of
        None \<Rightarrow> Some t
      | Some u \<Rightarrow> if due u < due t then Some u else Some t)"

definition run_next :: "config \<Rightarrow> (nat \<Rightarrow> real) \<Rightarrow> monitor \<Rightarrow> monitor" where
  "run_next cfg rnd m =
     (case earliest (pending m) of None \<Rightarrow> m | Some t \<Rightarrow> fire cfg rnd (handle t) m)"

text \<open>A monitor whose grid has just been built, with \<open>rows\<close> cells in each column.\<close>

definition new_monitor :: "nat list \<Rightarrow> monitor" where
  "new_monitor rows =
     \<lparr>isInitialized = True, deferred = [],
      columns = map (\<lambda>n. replicate n new_cell) rows,
      timers = \<lparr>mainLoopInterval_t = None, mainLoopDuration_t = None, start_t = None,
                pause_t = None, resume_t = None, stop_t = None\<rparr>,
      now = 0, nextHandle = 1, pending = [], seed = 0\<rparr>"


section \<open>Properties of the character source\<close>

lemma random_lower:
  assumes "0 \<le> r" and "from \<le> to"
  shows "\<lfloor>from\<rfloor> \<le> random from to r"
proof -
  have "0 \<le> r * (to - from)" using assms by simp
  then have "from \<le> r * (to - from) + from" by simp
  then show ?thesis unfolding random_def by (rule floor_mono)
qed

lemma random_upper:
  assumes "r < 1" and "0 \<le> r" and "from < to"
  shows "real_of_int (random from to r) < to"
proof -
  have "r * (to - from) < 1 * (to - from)"
    using assms by (intro mult_strict_right_mono) simp_all
  then have "r * (to - from) + from < to" by simp
  moreover have "real_of_int (random from to r) \<le> r * (to - from) + from"
    unfolding random_def by simp
  ultimately show ?thesis by linarith
qed

lemma random_index_range:
  assumes "0 \<le> r" and "r < 1" and "0 < length glyphs"
  shows "0 \<le> random 0 (real (length glyphs) - 1 / 1000000) r"
    and "nat (random 0 (real (length glyphs) - 1 / 1000000) r) < length glyphs"
proof -
  let ?to = "real (length glyphs) - 1 / 1000000"
  have pos: "(0::real) < ?to"
  proof -
    have "1 \<le> length glyphs" using assms(3) by linarith
    then have "(1::real) \<le> real (length glyphs)" by simp
    then show ?thesis by simp
  qed
  have "\<lfloor>0::real\<rfloor> \<le> random 0 ?to r"
    using assms(1) pos by (intro random_lower) simp_all
  then show lo: "0 \<le> random 0 ?to r" by simp
  have "real_of_int (random 0 ?to r) < ?to"
    using assms(1,2) pos by (intro random_upper) simp_all
  then have "real_of_int (random 0 ?to r) < real (length glyphs)" by simp
  then have "random 0 ?to r < int (length glyphs)" by linarith
  then show "nat (random 0 ?to r) < length glyphs" using lo by linarith
qed

lemma str_index_in_range:
  "0 \<le> i \<Longrightarrow> nat i < length s \<Longrightarrow> str_index s i = JStr [s ! nat i]"
  by (simp add: str_index_def)

text \<open>
  C2 (as amended). For an alphabet of at least two glyphs whose first glyph occurs
  nowhere else in it, and a non-empty glyph to exclude, \<open>getRandomChar\<close> never returns
  the excluded glyph: the glyph at the random index is returned unless it is the excluded
  one, which is replaced by the first glyph of the alphabet, or by the second when the
  excluded glyph is the first. (That the index is uniformly distributed is not stated.)
\<close>

theorem getRandomChar_excludes:
  assumes len: "2 \<le> length glyphs"
    and first: "hd glyphs \<notin> set (tl glyphs)"
    and r: "0 \<le> r" "r < 1"
    and e: "e \<noteq> []"
  shows "getRandomChar glyphs (JStr e) r \<noteq> JStr e \<and>
         (let index = random 0 (real (length glyphs) - 1 / 1000000) r;
              chosen = str_index glyphs index
          in 0 \<le> index \<and> nat index < length glyphs \<and>
             getRandomChar glyphs (JStr e) r =
               (if chosen = JStr e
                then (if chosen = str_index glyphs 0 then str_index glyphs 1
                      else str_index glyphs 0)
                else chosen))"
proof -
  define index where "index = random 0 (real (length glyphs) - 1 / 1000000) r"
  define chosen where "chosen = str_index glyphs index"
  have pos: "0 < length glyphs" using len by (cases glyphs) simp_all
  have lo: "0 \<le> index" and hi: "nat index < length glyphs"
    using random_index_range [OF r pos] by (simp_all add: index_def)
  have chosen: "chosen = JStr [glyphs ! nat index]"
    using lo hi by (simp add: chosen_def str_index_in_range)
  obtain a b rest where ab: "glyphs = a # b # rest"
    using len by (cases glyphs; cases "tl glyphs") auto
  have a_once: "a \<noteq> b" "a \<notin> set rest" using first ab by auto
  have s0: "str_index glyphs 0 = JStr [a]" and s1: "str_index glyphs 1 = JStr [b]"
    using ab by (simp_all add: str_index_def)
  have first_iff: "chosen = str_index glyphs 0 \<longleftrightarrow> index = 0"
  proof
    assume "chosen = str_index glyphs 0"
    then have eq: "glyphs ! nat index = a" using chosen s0 by simp
    show "index = 0"
    proof (rule ccontr)
      assume "index \<noteq> 0"
      then obtain k where k: "nat index = Suc k" using lo by (cases "nat index") auto
      then have "glyphs ! nat index \<in> set (b # rest)"
        using hi ab by (auto simp: nth_Cons')
      then show False using eq a_once by auto
    qed
  next
    assume "index = 0"
    then show "chosen = str_index glyphs 0" by (simp add: chosen_def)
  qed
  have res: "getRandomChar glyphs (JStr e) r =
               (if chosen = JStr e
                then (if chosen = str_index glyphs 0 then str_index glyphs 1
                      else str_index glyphs 0)
                else chosen)"
    using e first_iff
    by (auto simp: getRandomChar_def Let_def index_def [symmetric] chosen_def [symmetric])
  have ne: "getRandomChar glyphs (JStr e) r \<noteq> JStr e"
  proof (cases "chosen = JStr e")
    case False
    then show ?thesis using res by simp
  next
    case True
    show ?thesis
    proof (cases "index = 0")
      case True
      then have "chosen = JStr [a]" using first_iff s0 by simp
      then have "JStr e = JStr [a]" using \<open>chosen = JStr e\<close> by simp
      moreover have "getRandomChar glyphs (JStr e) r = JStr [b]"
        using res \<open>chosen = JStr e\<close> first_iff True s1 by simp
      ultimately show ?thesis using a_once by auto
    next
      case False
      then have "chosen \<noteq> JStr [a]" using first_iff s0 by simp
      moreover have "getRandomChar glyphs (JStr e) r = JStr [a]"
        using res \<open>chosen = JStr e\<close> first_iff False s0 by simp
      ultimately show ?thesis using \<open>chosen = JStr e\<close> by simp
    qed
  qed
  show ?thesis
    using ne res lo hi
    by (simp add: Let_def index_def [symmetric] chosen_def [symmetric])
qed

theorem getRandomChar_excludes_witness:
  "2 \<le> length ''AB'' \<and> hd ''AB'' \<notin> set (tl ''AB'') \<and> (0::real) \<le> 1 / 4 \<and> (1 / 4 :: real) < 1 \<and>
   getRandomChar ''AB'' (JStr ''A'') (1 / 4) = JStr ''B''"
  using getRandomChar_excludes [of "''AB''" "1 / 4" "''A''"]
  by (simp add: random_def str_index_def Let_def)

text \<open>
  C2 as stated asks only for two distinct glyphs. The test of the code is on the index,
  not on the glyph: in \<open>ABA\<close> the glyph at index 2 is the first glyph again, and
  excluding it returns it.
\<close>

theorem getRandomChar_repeats_counterexample:
  "2 \<le> card (set ''ABA'') \<and> ''A'' \<noteq> [] \<and> (0::real) \<le> 9 / 10 \<and> (9 / 10 :: real) < 1 \<and>
   getRandomChar ''ABA'' (JStr ''A'') (9 / 10) = JStr ''A''"
  by (simp add: getRandomChar_def random_def str_index_def card_insert_if)

section \<open>Properties of the image compositor\<close>

text \<open>
  What the specification says of the composed table. The cells of a row, the width of an
  image (the length of its longest row) and the entry expected at row \<open>i\<close> and column
  \<open>j\<close>: the absent marker \<open>null\<close> in the margins, the padding character in the
  paddings and where the image has no glyph, and the glyph of the image elsewhere.
\<close>

fun cells_of :: "jsval \<Rightarrow> jsval list" where
  "cells_of (JArr xs) = xs"
| "cells_of v = []"



lemma isArray_cells_of: "isArray v \<Longrightarrow> v = JArr (cells_of v)"
  by (cases v) simp_all




















section \<open>Which operations raise\<close>





















section \<open>Properties of the droplet cascade\<close>

declare createDroplet_loop.simps [simp del]
declare resume_walk.simps [simp del]

text \<open>
  An entry of \<open>charList\<close> is absent when the code samples a glyph in its place:
  \<open>!char && (char !== '')\<close>.
\<close>

definition absent :: "jsval \<Rightarrow> bool" where
  "absent v = (\<not> truthy v \<and> v \<noteq> JStr [])"

text \<open>
  The glyphs of a droplet as a function of its inputs alone: \<open>n\<close> cells from position
  \<open>i\<close> of \<open>charList\<close>, after the glyph \<open>prev\<close>, with \<open>rnd k\<close> the next random
  number.
\<close>

fun droplet_glyphs ::
  "string \<Rightarrow> (nat \<Rightarrow> real) \<Rightarrow> bool \<Rightarrow> jsval list \<Rightarrow> nat \<Rightarrow> jsval \<Rightarrow> nat \<Rightarrow> nat \<Rightarrow> jsval list" where
  "droplet_glyphs abc rnd clearScreen charList i prev k 0 = []"
| "droplet_glyphs abc rnd clearScreen charList i prev k (Suc n) =
     (if clearScreen then JStr [] # droplet_glyphs abc rnd clearScreen charList (Suc i) (JStr []) k n
      else if absent (arr_index charList i)
      then getRandomChar abc prev (rnd k) #
           droplet_glyphs abc rnd clearScreen charList (Suc i) (getRandomChar abc prev (rnd k)) (Suc k) n
      else arr_index charList i #
           droplet_glyphs abc rnd clearScreen charList (Suc i) (arr_index charList i) k n)"

lemma length_droplet_glyphs [simp]:
  "length (droplet_glyphs abc rnd clr chars i prev k n) = n"
  by (induction n arbitrary: i prev k clr) simp_all

lemma nth_nth_update:
  "xs[a := (xs ! a)[b := c]] ! a' ! b' =
     (if a' = a \<and> b' = b \<and> a < length xs \<and> b < length (xs ! a) then c else xs ! a' ! b')"
proof (cases "a < length xs")
  case False
  then show ?thesis by (simp add: list_update_beyond)
next
  case True
  show ?thesis
  proof (cases "b < length (xs ! a)")
    case False
    then show ?thesis using True by (simp add: list_update_beyond list_update_same_conv)
  next
    case b: True
    show ?thesis using True b by (auto simp: nth_list_update)
  qed
qed

lemma get_cell_set_cell:
  "get_cell (set_cell cl c m) cl' = (if cl' = cl \<and> valid_cell m cl then c else get_cell m cl')"
  by (cases cl; cases cl') (auto simp: get_cell_def set_cell_def valid_cell_def nth_nth_update)

lemma get_update_set_update:
  "get_update (set_update cl u m) cl' =
     (if cl' = cl \<and> valid_cell m cl then u else get_update m cl')"
  by (simp add: get_update_def set_update_def get_cell_set_cell)

lemma innerText_set_update:
  "innerText (get_cell (set_update cl u m) cl') = innerText (get_cell m cl')"
  by (simp add: set_update_def get_cell_set_cell)

subsection \<open>One cell of the droplet\<close>


lemma droplet_char_snd:
  "snd (droplet_char cfg rnd clr chars i prev m) =
     (if \<not> clr \<and> absent (arr_index chars i) then m\<lparr>seed := Suc (seed m)\<rparr> else m)"
  by (simp add: droplet_char_def absent_def Math_random_def Let_def)




lemma get_update_clearTimeout [simp]: "get_update (clearTimeout h m) cl = get_update m cl"
  by (simp add: get_update_def get_cell_def)

lemma get_update_setTimeout [simp]: "get_update (snd (setTimeout a d m)) cl = get_update m cl"
  by (simp add: get_update_def get_cell_def)

lemma valid_cell_clearTimeout [simp]: "valid_cell (clearTimeout h m) cl = valid_cell m cl"
  by (simp add: valid_cell_def)

lemma valid_cell_setTimeout [simp]: "valid_cell (snd (setTimeout a d m)) cl = valid_cell m cl"
  by (simp add: valid_cell_def)



subsection \<open>The walk down the column\<close>

definition cell_at :: "monitor \<Rightarrow> nat \<Rightarrow> nat \<Rightarrow> cellref option" where
  "cell_at m c r = (if valid_cell m (c, r) then Some (c, r) else None)"

lemma nextCell_cell_at: "nextCell m (c, r) = cell_at m c (Suc r)"
  by (simp add: nextCell_def cell_at_def)

lemma cell_at_shape: "shape m' = shape m \<Longrightarrow> cell_at m' c r = cell_at m c r"
  by (simp add: cell_at_def valid_cell_shape)

lemma valid_cell_shape_eq: "shape m' = shape m \<Longrightarrow> valid_cell m' cl = valid_cell m cl"
  by (simp add: valid_cell_shape)

definition droplet_next ::
  "config \<Rightarrow> (nat \<Rightarrow> real) \<Rightarrow> bool \<Rightarrow> jsval list \<Rightarrow> int \<Rightarrow> cellref \<Rightarrow> nat \<Rightarrow> int \<Rightarrow> jsval
     \<Rightarrow> monitor \<Rightarrow> monitor" where
  "droplet_next cfg rnd clr chars prog cl i dly prev m =
     droplet_cell cfg cl (fst (droplet_char cfg rnd clr chars i prev m)) dly prog
       (snd (droplet_char cfg rnd clr chars i prev m))"



lemma shape_droplet_next [simp]:
  "shape (droplet_next cfg rnd clr chars prog cl i dly prev m) = shape m"
  by (simp add: droplet_next_def)



lemma get_update_seed [simp]: "get_update (m\<lparr>seed := k\<rparr>) cl = get_update m cl"
  by (simp add: get_update_def get_cell_def)

lemma valid_cell_seed [simp]: "valid_cell (m\<lparr>seed := k\<rparr>) cl = valid_cell m cl"
  by (simp add: valid_cell_def)

lemma get_update_droplet_char [simp]:
  "get_update (snd (droplet_char cfg rnd clr chars i prev m)) cl = get_update m cl"
  by (simp add: droplet_char_snd)




definition column_handles :: "monitor \<Rightarrow> nat \<Rightarrow> nat \<Rightarrow> handle option list" where
  "column_handles m c r = map (\<lambda>r'. timer (get_update m (c, r'))) [r..<length (columns m ! c)]"



lemma shape_column_length:
  "shape m' = shape m \<Longrightarrow> c < length (columns m) \<Longrightarrow>
   length (columns m' ! c) = length (columns m ! c) \<and> c < length (columns m')"
  by (metis length_map nth_map shape_def)




subsection \<open>One call of \<open>createDroplet\<close>\<close>


lemma column_handles_seed [simp]: "column_handles (m\<lparr>seed := k\<rparr>) c r = column_handles m c r"
  by (simp add: column_handles_def)









text \<open>
  The default configuration over the alphabet \<open>AB\<close>, and the same with both bounds of
  the progression at \<open>0\<close>.
\<close>

definition demo_config :: config where
  "demo_config = DEFAULT_OPTIONS Full ''AB''"


lemma new_monitor_column [simp]:
  "c < length rows \<Longrightarrow> columns (new_monitor rows) ! c = replicate (rows ! c) new_cell"
  by (simp add: new_monitor_def)

lemma new_monitor_fields [simp]:
  "length (columns (new_monitor rows)) = length rows"
  "pending (new_monitor rows) = []" "nextHandle (new_monitor rows) = 1"
  "now (new_monitor rows) = 0" "seed (new_monitor rows) = 0"
  "isInitialized (new_monitor rows)" "deferred (new_monitor rows) = []"
  by (simp_all add: new_monitor_def)







section \<open>Properties of the lifecycle controller\<close>

text \<open>
  C4. \<open>start({delay, duration})\<close> is to run the main loop immediately when the delay
  is zero or negative, and to stop after \<open>duration + delay\<close> whenever the duration is
  a number. The code reads both options by their truthiness, so a delay of \<open>0\<close> and a
  duration of \<open>0\<close> count as not given. With the default configuration (initial delay
  1000, no duration): \<open>start({delay: 0, duration: 5000})\<close> queues the start 1000 ms
  and the stop 6000 ms from now; \<open>start({delay: 0, duration: 0})\<close> queues the start
  1000 ms from now and no stop; a negative delay does run the main loop at once and
  installs the recurring cycle.
\<close>

theorem start_zero_delay_takes_default:
  "map (\<lambda>t. (handle t, due t, act t))
     (pending (priv_start demo_config (\<lambda>n. 1 / 2)
        (Obj \<lparr>so_delay = Some 0, so_duration = Some 5000\<rparr>) (new_monitor [2])))
     = [(1, 1000, AStartFunction), (2, 6000, AStopFunction False)] \<and>
   map (\<lambda>t. (handle t, due t, act t))
     (pending (priv_start demo_config (\<lambda>n. 1 / 2)
        (Obj \<lparr>so_delay = Some 0, so_duration = Some 0\<rparr>) (new_monitor [2])))
     = [(1, 1000, AStartFunction)] \<and>
   map (\<lambda>t. (handle t, due t, act t))
     (pending (priv_start demo_config (\<lambda>n. 1 / 2)
        (Obj \<lparr>so_delay = Some (- 1), so_duration = None\<rparr>) (new_monitor [2])))
     = [(1, 5250, ACreateDroplet (0, 0) False []), (2, 10000, AMainLoop mainLoop_defaults)]"
  by code_simp

text \<open>
  C8. Every operation that records a new handle is to cancel the task recorded there
  before. \<open>createDroplet\<close> does (C9), and so do the lifecycle timers; the main loop
  does not: it stores the handle of the new droplet in \<open>topCell.update.timer\<close> with no
  \<open>clearTimeout\<close>. After two calls of the main loop on a grid of one cell the top
  cell records handle 2, the droplet of handle 1 is still pending, and \<open>stop\<close>, which
  cancels what the cells record, leaves it pending.
\<close>

theorem mainLoop_leaves_stale_timer:
  "timer (get_update (mainLoop demo_config (\<lambda>n. 1 / 2) mainLoop_defaults (new_monitor [1])) (0, 0))
     = Some 1 \<and>
   timer (get_update
            (mainLoop demo_config (\<lambda>n. 1 / 2) mainLoop_defaults
               (mainLoop demo_config (\<lambda>n. 1 / 2) mainLoop_defaults (new_monitor [1]))) (0, 0))
     = Some 2 \<and>
   map (\<lambda>t. (handle t, act t))
     (pending (mainLoop demo_config (\<lambda>n. 1 / 2) mainLoop_defaults
                 (mainLoop demo_config (\<lambda>n. 1 / 2) mainLoop_defaults (new_monitor [1]))))
     = [(1, ACreateDroplet (0, 0) False []), (2, ACreateDroplet (0, 0) False [])] \<and>
   map (\<lambda>t. (handle t, act t))
     (pending (stop_body (\<lambda>n. 1 / 2) no_stop_options
                 (mainLoop demo_config (\<lambda>n. 1 / 2) mainLoop_defaults
                    (mainLoop demo_config (\<lambda>n. 1 / 2) mainLoop_defaults (new_monitor [1])))))
     = [(1, ACreateDroplet (0, 0) False [])]"
  by code_simp

subsection \<open>Pausing\<close>

text \<open>The handles that the cells of a list record.\<close>

definition recorded :: "monitor \<Rightarrow> cellref list \<Rightarrow> handle option list" where
  "recorded m cls = map (\<lambda>cl. timer (get_update m cl)) cls"


lemma clearTimeout_fields [simp]:
  "timers (clearTimeout h m) = timers m" "now (clearTimeout h m) = now m"
  "nextHandle (clearTimeout h m) = nextHandle m" "seed (clearTimeout h m) = seed m"
  "isInitialized (clearTimeout h m) = isInitialized m" "deferred (clearTimeout h m) = deferred m"
  by (cases h; simp add: clearTimeout_def)+

lemma setTimeout_fields [simp]:
  "fst (setTimeout a d m) = nextHandle m"
  "timers (snd (setTimeout a d m)) = timers m" "now (snd (setTimeout a d m)) = now m"
  "nextHandle (snd (setTimeout a d m)) = Suc (nextHandle m)"
  "seed (snd (setTimeout a d m)) = seed m"
  "pending (snd (setTimeout a d m)) =
     pending m @ [\<lparr>handle = nextHandle m, due = now m + max 0 d, every = None, act = a\<rparr>]"
  by (simp_all add: setTimeout_def)

lemma setInterval_fields [simp]:
  "fst (setInterval a d m) = nextHandle m"
  "timers (snd (setInterval a d m)) = timers m" "now (snd (setInterval a d m)) = now m"
  "nextHandle (snd (setInterval a d m)) = Suc (nextHandle m)"
  "seed (snd (setInterval a d m)) = seed m"
  "pending (snd (setInterval a d m)) =
     pending m @ [\<lparr>handle = nextHandle m, due = now m + max 0 d, every = Some (max 0 d), act = a\<rparr>]"
  by (simp_all add: setInterval_def)

lemma recorded_clearTimeout [simp]: "recorded (clearTimeout h m) cls = recorded m cls"
  by (simp add: recorded_def)


lemma pauseAtOnce_fields [simp]:
  "columns (pauseAtOnce cls m) = columns m" "timers (pauseAtOnce cls m) = timers m"
  "now (pauseAtOnce cls m) = now m" "nextHandle (pauseAtOnce cls m) = nextHandle m"
  "seed (pauseAtOnce cls m) = seed m"
  by (induction cls arbitrary: m) simp_all





text \<open>
  The tasks that a staggered pause queues: one per target cell, each to clear the handle
  that the cell records now, after its own random delay.
\<close>

definition clear_tasks ::
  "(nat \<Rightarrow> real) \<Rightarrow> int \<Rightarrow> int \<Rightarrow> monitor \<Rightarrow> cellref list \<Rightarrow> task list" where
  "clear_tasks rnd minPauseDelay maxPauseDelay m cls =
     map (\<lambda>k. \<lparr>handle = nextHandle m + k,
                due = now m + max 0 (random (real_of_int minPauseDelay)
                                       (real_of_int maxPauseDelay) (rnd (seed m + k))),
                every = None, act = AClearTimeout (timer (get_update m (cls ! k)))\<rparr>)
       [0..<length cls]"

lemma pause_staggered_effect:
  "pending (pause_staggered rnd mn mx cls m) = pending m @ clear_tasks rnd mn mx m cls \<and>
   columns (pause_staggered rnd mn mx cls m) = columns m \<and>
   timers (pause_staggered rnd mn mx cls m) = timers m \<and>
   now (pause_staggered rnd mn mx cls m) = now m \<and>
   nextHandle (pause_staggered rnd mn mx cls m) = nextHandle m + length cls \<and>
   seed (pause_staggered rnd mn mx cls m) = seed m + length cls"
proof (induction cls arbitrary: m)
  case Nil
  then show ?case by (simp add: clear_tasks_def)
next
  case (Cons cl cls)
  define m1 where "m1 = m\<lparr>seed := Suc (seed m)\<rparr>"
  define d where "d = random (real_of_int mn) (real_of_int mx) (rnd (seed m))"
  define m2 where "m2 = snd (setTimeout (AClearTimeout (timer (get_update m1 cl))) d m1)"
  have step: "pause_staggered rnd mn mx (cl # cls) m = pause_staggered rnd mn mx cls m2"
    by (simp add: Math_random_def m1_def m2_def d_def Let_def)
  have f: "pending m2 = pending m @ [\<lparr>handle = nextHandle m, due = now m + max 0 d, every = None,
                          act = AClearTimeout (timer (get_update m cl))\<rparr>]"
    "columns m2 = columns m" "timers m2 = timers m" "now m2 = now m"
    "nextHandle m2 = Suc (nextHandle m)" "seed m2 = Suc (seed m)"
    by (simp_all add: m2_def m1_def)
  have u: "get_update m2 c' = get_update m c'" for c'
    by (simp add: get_update_def get_cell_def f)
  have upt: "[0..<length (cl # cls)] = 0 # map Suc [0..<length cls]"
    by (simp add: upt_conv_Cons map_Suc_upt del: upt_Suc)
  have tasks: "clear_tasks rnd mn mx m (cl # cls) =
     \<lparr>handle = nextHandle m, due = now m + max 0 d, every = None,
      act = AClearTimeout (timer (get_update m cl))\<rparr> # clear_tasks rnd mn mx m2 cls"
    unfolding clear_tasks_def upt by (simp add: f u d_def)
  note IH = Cons [of m2, unfolded f]
  show ?case
    unfolding step tasks using IH
    by (simp only: append_assoc append_Cons append_Nil list.size add_Suc_right add_Suc add_0_right)
qed



lemma pauseFunction_fields [simp]:
  "columns (pauseFunction rnd onlyTopCells allAtOnce mn mx m) = columns m"
  "timers (pauseFunction rnd onlyTopCells allAtOnce mn mx m) = timers m"
  using pause_staggered_effect [of rnd mn mx
      "cellsToPause onlyTopCells (clearInterval (mainLoopInterval_t (timers m)) m)"
      "clearInterval (mainLoopInterval_t (timers m)) m"]
  by (simp_all add: pauseFunction_def Let_def clearInterval_def)









text \<open>
  A run of the default configuration on one column of two cells: the monitor is started,
  the start fires, the droplet of the column is spawned, and the update of its top cell
  fires. Then, as \<open>draw\<close> does, the top cells are paused and the monitor is resumed:
  the update of the lower cell, still pending, is scheduled a second time. At last the
  whole grid is paused at once.
\<close>

definition rnd_half :: "nat \<Rightarrow> real" where
  "rnd_half = (\<lambda>n. 1 / 2)"






subsection \<open>What a pause leaves alone\<close>












lemma cells_now_pending [simp]: "cells (m\<lparr>now := n, pending := p\<rparr>) = cells m"
  by (simp add: cells_def)

lemma recorded_now_pending [simp]:
  "recorded (m\<lparr>now := n, pending := p\<rparr>) cls = recorded m cls"
  by (simp add: recorded_def get_update_def get_cell_def)







subsection \<open>Resuming\<close>

text \<open>
  Two states agree on what the cells have stored when the grid has the same shape, the
  clock shows the same time and every cell's update state is the same but for the handle
  of its timer.
\<close>

definition stored_eq :: "monitor \<Rightarrow> monitor \<Rightarrow> bool" where
  "stored_eq m m' =
     (shape m' = shape m \<and> now m' = now m \<and>
      (\<forall>cl. (get_update m' cl)\<lparr>timer := timer (get_update m cl)\<rparr> = get_update m cl))"

lemma stored_eq_refl [simp]: "stored_eq m m"
  by (simp add: stored_eq_def)

lemma stored_eq_trans: "stored_eq m m' \<Longrightarrow> stored_eq m' m'' \<Longrightarrow> stored_eq m m''"
  unfolding stored_eq_def
  by (metis (no_types, lifting) update_state.surjective update_state.update_convs(1))

lemma stored_eq_columns: "columns m' = columns m \<Longrightarrow> now m' = now m \<Longrightarrow> stored_eq m m'"
  by (simp add: stored_eq_def shape_def get_update_def get_cell_def)

lemma stored_eq_clearTimeout [simp]: "stored_eq m (clearTimeout h m)"
  by (rule stored_eq_columns) simp_all

lemma stored_eq_setTimeout [simp]: "stored_eq m (snd (setTimeout a d m))"
  by (rule stored_eq_columns) simp_all

lemma stored_eq_setInterval [simp]: "stored_eq m (snd (setInterval a d m))"
  by (rule stored_eq_columns) simp_all

lemma now_set_update [simp]: "now (set_update cl u m) = now m"
  by (simp add: set_update_def set_cell_def)

lemma stored_eq_set_timer:
  "stored_eq m (set_update cl ((get_update m cl)\<lparr>timer := h\<rparr>) m)"
  by (simp add: stored_eq_def get_update_set_update)

lemma stored_eq_mainLoop_loop:
  "stored_eq m (mainLoop_loop cfg rnd clr tbl ign tcs i m)"
proof (induction tcs arbitrary: i m)
  case Nil
  then show ?case by simp
next
  case (Cons topCell rest)
  show ?case
  proof (cases "int i \<in> set ign")
    case True
    then show ?thesis using Cons.IH [where i = "Suc i" and m = m] by simp
  next
    case False
    define m1 where "m1 = m\<lparr>seed := Suc (seed m)\<rparr>"
    define d where "d = random (real_of_int (minCharStartDelay cfg))
                               (real_of_int (maxCharStartDelay cfg)) (rnd (seed m))"
    define a where "a = ACreateDroplet topCell clr (if i < length tbl then tbl ! i else [])"
    define m2 where "m2 = snd (setTimeout a d m1)"
    define m3 where "m3 = set_update topCell ((get_update m2 topCell)\<lparr>timer := Some (nextHandle m1)\<rparr>) m2"
    have step: "mainLoop_loop cfg rnd clr tbl ign (topCell # rest) i m =
                mainLoop_loop cfg rnd clr tbl ign rest (Suc i) m3"
      using False
      by (simp add: m1_def d_def a_def m2_def m3_def Let_def Math_random_def case_prod_beta)
    have "stored_eq m m1" by (simp add: m1_def stored_eq_columns)
    moreover have "stored_eq m1 m2" by (simp add: m2_def)
    moreover have "stored_eq m2 m3" unfolding m3_def by (rule stored_eq_set_timer)
    ultimately have "stored_eq m m3" by (blast intro: stored_eq_trans)
    then show ?thesis
      unfolding step using Cons.IH [where i = "Suc i" and m = m3] by (blast intro: stored_eq_trans)
  qed
qed

lemma stored_eq_mainLoop: "stored_eq m (mainLoop cfg rnd opts m)"
  by (simp add: mainLoop_def stored_eq_mainLoop_loop)

lemma stored_eq_startFunction: "stored_eq m (startFunction cfg rnd m)"
proof -
  let ?m1 = "clearInterval (mainLoopInterval_t (timers m)) m"
  let ?m2 = "mainLoop cfg rnd mainLoop_defaults ?m1"
  let ?m3 = "snd (setInterval (AMainLoop mainLoop_defaults) (mainLoopInterval cfg) ?m2)"
  have "stored_eq m ?m1" by (simp add: clearInterval_def)
  moreover have "stored_eq ?m1 ?m2" by (rule stored_eq_mainLoop)
  moreover have "stored_eq ?m2 ?m3" by simp
  ultimately have "stored_eq m ?m3" by (blast intro: stored_eq_trans)
  moreover have "stored_eq ?m3 (startFunction cfg rnd m)"
    by (rule stored_eq_columns) (simp_all add: startFunction_def Let_def setInterval_def)
  ultimately show ?thesis by (blast intro: stored_eq_trans)
qed

lemma stored_eq_pauseAtOnce: "stored_eq m (pauseAtOnce cls m)"
  by (rule stored_eq_columns) simp_all

lemma clearing_droplets_fields [simp]:
  "columns (clearing_droplets rnd tcs m) = columns m" "now (clearing_droplets rnd tcs m) = now m"
  by (induction tcs arbitrary: m) (simp_all add: Math_random_def split: prod.splits)

lemma stored_eq_stopFunction: "stored_eq m (stopFunction rnd clr m)"
  by (rule stored_eq_columns) (simp_all add: stopFunction_def Let_def clearInterval_def)

lemma stored_eq_stop_body: "stored_eq m (stop_body rnd options m)"
proof -
  let ?m1 = "clearTimeout (stop_t (timers m)) m"
  have 1: "stored_eq m ?m1" by simp
  have 2: "stored_eq ?m1 (stopFunction rnd clr ?m1)" for clr by (rule stored_eq_stopFunction)
  have 3: "stored_eq ?m1 (case setTimeout a d ?m1 of
              (tm, m2) \<Rightarrow> m2\<lparr>timers := (timers m2)\<lparr>stop_t := Some tm\<rparr>\<rparr>)" for a d
    by (rule stored_eq_columns) (simp_all add: setTimeout_def)
  show ?thesis
    unfolding stop_body_def Let_def
    by (auto intro: stored_eq_trans [OF 1] 2 3)
qed

lemma stored_eq_priv_start: "stored_eq m (priv_start cfg rnd a m)"
proof -
  let ?m1 = "clearTimeout (start_t (timers m)) m"
  have 1: "stored_eq m ?m1" by simp
  have 2: "stored_eq ?m1 (startFunction cfg rnd ?m1)" by (rule stored_eq_startFunction)
  have 3: "stored_eq ?m1 (case setTimeout a d ?m1 of
              (tm, m') \<Rightarrow> m'\<lparr>timers := (timers m')\<lparr>start_t := Some tm\<rparr>\<rparr>)" for a d
    by (rule stored_eq_columns) (simp_all add: setTimeout_def)
  have 4: "stored_eq x (stop_body rnd o' x)" for x o' by (rule stored_eq_stop_body)
  have 5: "stored_eq m (if 0 < d then (case setTimeout AStartFunction d ?m1 of
              (tm, m') \<Rightarrow> m'\<lparr>timers := (timers m')\<lparr>start_t := Some tm\<rparr>\<rparr>)
            else startFunction cfg rnd ?m1)" for d
    by (auto intro: stored_eq_trans [OF 1] 2 3)
  define d where "d = (case so_delay (start_options_of a) of
                         Some d \<Rightarrow> if d \<noteq> 0 then d else initialDelay cfg
                       | None \<Rightarrow> initialDelay cfg)"
  define dur where "dur = (case so_duration (start_options_of a) of
                         Some d \<Rightarrow> if d \<noteq> 0 then Some d else mainLoopDuration cfg
                       | None \<Rightarrow> mainLoopDuration cfg)"
  define m2 where "m2 = (if 0 < d then (case setTimeout AStartFunction d ?m1 of
              (tm, m') \<Rightarrow> m'\<lparr>timers := (timers m')\<lparr>start_t := Some tm\<rparr>\<rparr>)
            else startFunction cfg rnd ?m1)"
  have eq: "priv_start cfg rnd a m =
     (case dur of Some x \<Rightarrow> stop_body rnd \<lparr>to_delay = Some (x + d), to_clearScreen = None\<rparr> m2
      | None \<Rightarrow> m2)"
    unfolding priv_start_def Let_def
    unfolding d_def [symmetric] dur_def [symmetric]
    unfolding m2_def [symmetric]
    by (rule refl)
  have m2: "stored_eq m m2" unfolding m2_def by (rule 5)
  show ?thesis
    unfolding eq using m2 stored_eq_trans [OF m2 4] by (cases dur) simp_all
qed


text \<open>
  \<open>cellDelay += update.progression\<close>: a progression that is still \<open>null\<close> adds \<open>0\<close>.
  \<open>walk_tasks\<close> lists the tasks that the walk down one column queues, from the update
  states met on the way.
\<close>

definition stored_progression :: "update_state \<Rightarrow> int" where
  "stored_progression u = (case progression u of None \<Rightarrow> 0 | Some p \<Rightarrow> p)"

fun walk_tasks ::
  "config \<Rightarrow> update_state list \<Rightarrow> nat \<Rightarrow> nat \<Rightarrow> int \<Rightarrow> handle \<Rightarrow> int \<Rightarrow> task list" where
  "walk_tasks cfg [] c r d h n = []"
| "walk_tasks cfg (u # us) c r d h n =
     (if resume_skips cfg u then walk_tasks cfg us c (Suc r) d h n
      else \<lparr>handle = h, due = n + max 0 d, every = None, act = AUpdateCell (c, r) (nextChar u)\<rparr> #
           walk_tasks cfg us c (Suc r) (d + stored_progression u) (Suc h) n)"

definition column_states :: "monitor \<Rightarrow> nat \<Rightarrow> nat \<Rightarrow> update_state list" where
  "column_states m c r = map (\<lambda>r'. get_update m (c, r')) [r..<length (columns m ! c)]"

lemma walk_done:
  "cell_at m c r = None \<Longrightarrow> resume_walk cfg (cell_at m c r) d m = m"
  by (simp add: resume_walk.simps)

lemma walk_skip:
  "valid_cell m (c, r) \<Longrightarrow> resume_skips cfg (get_update m (c, r)) \<Longrightarrow>
   resume_walk cfg (cell_at m c r) d m = resume_walk cfg (cell_at m c (Suc r)) d m"
  by (subst resume_walk.simps) (simp add: cell_at_def nextCell_cell_at)

lemma walk_step:
  "valid_cell m (c, r) \<Longrightarrow> \<not> resume_skips cfg (get_update m (c, r)) \<Longrightarrow>
   resume_walk cfg (cell_at m c r) d m =
     resume_walk cfg (cell_at (resume_cell (c, r) d m) c (Suc r))
       (d + stored_progression (get_update m (c, r))) (resume_cell (c, r) d m)"
  by (subst resume_walk.simps)
     (simp add: cell_at_def nextCell_cell_at stored_progression_def Let_def)

lemma resume_cell_effect:
  "pending (resume_cell cl d m) =
     pending m @ [\<lparr>handle = nextHandle m, due = now m + max 0 d, every = None,
                  act = AUpdateCell cl (nextChar (get_update m cl))\<rparr>]"
  "nextHandle (resume_cell cl d m) = Suc (nextHandle m)"
  "now (resume_cell cl d m) = now m" "timers (resume_cell cl d m) = timers m"
  "seed (resume_cell cl d m) = seed m"
  by (simp_all add: resume_cell_def setTimeout_def set_update_def set_cell_def)

lemma resume_cell_update:
  "get_update (resume_cell cl d m) cl' =
     (if cl' = cl \<and> valid_cell m cl then (get_update m cl)\<lparr>timer := Some (nextHandle m)\<rparr>
      else get_update m cl')"
proof -
  let ?a = "AUpdateCell cl (nextChar (get_update m cl))"
  have "resume_cell cl d m =
          set_update cl ((get_update (snd (setTimeout ?a d m)) cl)\<lparr>timer := Some (nextHandle m)\<rparr>)
            (snd (setTimeout ?a d m))"
    by (simp add: resume_cell_def case_prod_beta)
  then show ?thesis by (simp add: get_update_set_update)
qed

lemma stored_eq_resume_cell: "stored_eq m (resume_cell cl d m)"
  by (simp add: stored_eq_def resume_cell_update resume_cell_effect)

lemma column_states_Cons:
  "r < length (columns m ! c) \<Longrightarrow>
   column_states m c r = get_update m (c, r) # column_states m c (Suc r)"
  by (simp add: column_states_def upt_conv_Cons)

lemma walk_effect:
  assumes "c < length (columns m)" and "r \<le> length (columns m ! c)"
    and "length (columns m ! c) - r = n"
  shows "pending (resume_walk cfg (cell_at m c r) d m) =
           pending m @ walk_tasks cfg (column_states m c r) c r d (nextHandle m) (now m) \<and>
         nextHandle (resume_walk cfg (cell_at m c r) d m) =
           nextHandle m + length (walk_tasks cfg (column_states m c r) c r d (nextHandle m) (now m)) \<and>
         stored_eq m (resume_walk cfg (cell_at m c r) d m) \<and>
         timers (resume_walk cfg (cell_at m c r) d m) = timers m"
  using assms
proof (induction n arbitrary: r d m)
  case 0
  then have r: "r = length (columns m ! c)" by simp
  then have none: "cell_at m c r = None" by (simp add: cell_at_def valid_cell_def)
  have "column_states m c r = []" using r by (simp add: column_states_def)
  then show ?case unfolding walk_done [OF none] by simp
next
  case (Suc n)
  have r: "r < length (columns m ! c)" using Suc.prems by simp
  then have valid: "valid_cell m (c, r)" using Suc.prems(1) by (simp add: valid_cell_def)
  note cs = column_states_Cons [OF r]
  show ?case
  proof (cases "resume_skips cfg (get_update m (c, r))")
    case True
    have "Suc r \<le> length (columns m ! c)" "length (columns m ! c) - Suc r = n"
      using Suc.prems r by simp_all
    from Suc.IH [OF Suc.prems(1) this, of d] show ?thesis
      by (simp add: walk_skip [OF valid True] cs True)
  next
    case False
    define m1 where "m1 = resume_cell (c, r) d m"
    have se: "stored_eq m m1" by (simp add: m1_def stored_eq_resume_cell)
    then have sh: "shape m1 = shape m" by (simp add: stored_eq_def)
    have len: "length (columns m1 ! c) = length (columns m ! c)" "c < length (columns m1)"
      using shape_column_length [OF sh Suc.prems(1)] by simp_all
    have f: "pending m1 = pending m @ [\<lparr>handle = nextHandle m, due = now m + max 0 d, every = None,
                  act = AUpdateCell (c, r) (nextChar (get_update m (c, r)))\<rparr>]"
      "nextHandle m1 = Suc (nextHandle m)" "now m1 = now m" "timers m1 = timers m"
      by (simp_all add: m1_def resume_cell_effect)
    have cs1: "column_states m1 c (Suc r) = column_states m c (Suc r)"
      unfolding column_states_def len
      by (rule map_cong) (simp_all add: m1_def resume_cell_update)
    have prem: "Suc r \<le> length (columns m1 ! c)" "length (columns m1 ! c) - Suc r = n"
      using Suc.prems r by (simp_all add: len)
    note IH = Suc.IH [OF len(2) prem, of "d + stored_progression (get_update m (c, r))",
        unfolded cs1 f]
    have step: "resume_walk cfg (cell_at m c r) d m =
       resume_walk cfg (cell_at m1 c (Suc r)) (d + stored_progression (get_update m (c, r))) m1"
      unfolding m1_def by (rule walk_step [OF valid False])
    show ?thesis
      unfolding step cs
      using IH se by (auto simp: False intro: stored_eq_trans)
  qed
qed


lemma walk_tasks_index:
  "R - r = n \<Longrightarrow>
   walk_tasks cfg (map u [r..<R]) c r d h t =
     map (\<lambda>k. \<lparr>handle = h + k,
                due = t + max 0 (d + sum_list (map (\<lambda>r'. stored_progression (u r'))
                        (take k (filter (\<lambda>r'. \<not> resume_skips cfg (u r')) [r..<R])))),
                every = None,
                act = AUpdateCell (c, filter (\<lambda>r'. \<not> resume_skips cfg (u r')) [r..<R] ! k)
                        (nextChar (u (filter (\<lambda>r'. \<not> resume_skips cfg (u r')) [r..<R] ! k)))\<rparr>)
       [0..<length (filter (\<lambda>r'. \<not> resume_skips cfg (u r')) [r..<R])]"
proof (induction n arbitrary: r d h)
  case 0
  then show ?case by simp
next
  case (Suc n)
  then have r: "r < R" and n: "R - Suc r = n" by simp_all
  have upt: "[r..<R] = r # [Suc r..<R]" using r by (simp add: upt_conv_Cons)
  define todo where "todo = filter (\<lambda>r'. \<not> resume_skips cfg (u r')) [Suc r..<R]"
  show ?case
  proof (cases "resume_skips cfg (u r)")
    case True
    then show ?thesis
      unfolding upt using Suc.IH [OF n, of d h] by simp
  next
    case False
    have idx: "[0..<Suc (length todo)] = 0 # map Suc [0..<length todo]"
      by (simp add: upt_conv_Cons map_Suc_upt del: upt_Suc)
    show ?thesis
      unfolding upt using Suc.IH [OF n, of "d + stored_progression (u r)" "Suc h"] False
      by (simp add: todo_def [symmetric] idx add.assoc del: upt_Suc)
  qed
qed

lemma stored_eq_fields:
  assumes "stored_eq m m'"
  shows "resume_skips cfg (get_update m' cl) = resume_skips cfg (get_update m cl)"
    and "nextChar (get_update m' cl) = nextChar (get_update m cl)"
    and "stored_progression (get_update m' cl) = stored_progression (get_update m cl)"
    and "isUpdated (get_update m' cl) = isUpdated (get_update m cl)"
proof -
  have "(get_update m' cl)\<lparr>timer := timer (get_update m cl)\<rparr> = get_update m cl"
    using assms by (cases cl) (simp add: stored_eq_def)
  then have e: "isUpdated (get_update m' cl) = isUpdated (get_update m cl)"
    "has_function (get_update m' cl) = has_function (get_update m cl)"
    "nextChar (get_update m' cl) = nextChar (get_update m cl)"
    "progression (get_update m' cl) = progression (get_update m cl)"
    by (metis update_state.select_convs update_state.surjective update_state.update_convs(1))+
  show "resume_skips cfg (get_update m' cl) = resume_skips cfg (get_update m cl)"
    "nextChar (get_update m' cl) = nextChar (get_update m cl)"
    "stored_progression (get_update m' cl) = stored_progression (get_update m cl)"
    "isUpdated (get_update m' cl) = isUpdated (get_update m cl)"
    by (simp_all add: e resume_skips_def stored_progression_def)
qed

text \<open>
  The rows of a column that the walk does not skip, the tasks that it queues for them
  (the \<open>k\<close>-th is due after the sum of the progressions stored by the \<open>k\<close> rows
  rescheduled before it), and the tasks of the whole grid, column after column.
\<close>

definition reschedule_rows :: "config \<Rightarrow> monitor \<Rightarrow> nat \<Rightarrow> nat list" where
  "reschedule_rows cfg m c =
     filter (\<lambda>r. \<not> resume_skips cfg (get_update m (c, r))) [0..<length (columns m ! c)]"

definition column_tasks :: "config \<Rightarrow> monitor \<Rightarrow> nat \<Rightarrow> handle \<Rightarrow> task list" where
  "column_tasks cfg m c h =
     map (\<lambda>k. \<lparr>handle = h + k,
                due = now m + max 0 (sum_list (map (\<lambda>r. stored_progression (get_update m (c, r)))
                                        (take k (reschedule_rows cfg m c)))),
                every = None,
                act = AUpdateCell (c, reschedule_rows cfg m c ! k)
                        (nextChar (get_update m (c, reschedule_rows cfg m c ! k)))\<rparr>)
       [0..<length (reschedule_rows cfg m c)]"

fun grid_tasks :: "config \<Rightarrow> monitor \<Rightarrow> cellref list \<Rightarrow> handle \<Rightarrow> task list" where
  "grid_tasks cfg m [] h = []"
| "grid_tasks cfg m (topCell # rest) h =
     column_tasks cfg m (fst topCell) h @
     grid_tasks cfg m rest (h + length (reschedule_rows cfg m (fst topCell)))"

lemma length_column_tasks [simp]:
  "length (column_tasks cfg m c h) = length (reschedule_rows cfg m c)"
  by (simp add: column_tasks_def)

lemma walk_column_tasks:
  "walk_tasks cfg (column_states m c 0) c 0 0 h (now m) = column_tasks cfg m c h"
  unfolding column_states_def column_tasks_def reschedule_rows_def
  using walk_tasks_index [of "length (columns m ! c)" 0 "length (columns m ! c)" cfg
      "\<lambda>r'. get_update m (c, r')" c 0 h "now m"]
  by simp

lemma stored_eq_column_tasks:
  assumes "stored_eq m m'" and "c < length (columns m)"
  shows "column_tasks cfg m' c h = column_tasks cfg m c h"
    and "reschedule_rows cfg m' c = reschedule_rows cfg m c"
proof -
  have sh: "shape m' = shape m" and nw: "now m' = now m"
    using assms(1) by (simp_all add: stored_eq_def)
  have len: "length (columns m' ! c) = length (columns m ! c)"
    using shape_column_length [OF sh assms(2)] by simp
  show rows: "reschedule_rows cfg m' c = reschedule_rows cfg m c"
    by (simp add: reschedule_rows_def len stored_eq_fields [OF assms(1)])
  show "column_tasks cfg m' c h = column_tasks cfg m c h"
    by (simp add: column_tasks_def rows nw stored_eq_fields [OF assms(1)])
qed


lemma topCells_shape: "shape m' = shape m \<Longrightarrow> topCells m' = topCells m"
proof -
  assume sh: "shape m' = shape m"
  then have len: "length (columns m') = length (columns m)"
    by (metis length_map shape_def)
  have "(columns m' ! c \<noteq> []) = (columns m ! c \<noteq> [])" if "c < length (columns m)" for c
    using shape_column_length [OF sh that] by (metis length_0_conv)
  then have "filter (\<lambda>c. columns m' ! c \<noteq> []) [0..<length (columns m)] =
             filter (\<lambda>c. columns m ! c \<noteq> []) [0..<length (columns m)]"
    by (intro filter_cong) simp_all
  then show ?thesis by (simp add: topCells_def len)
qed

lemma columns_effect:
  assumes "stored_eq m0 m" and "\<forall>c\<in>set cs. c < length (columns m0) \<and> columns m0 ! c \<noteq> []"
  shows "pending (resume_columns cfg (map (\<lambda>c. (c, 0)) cs) m) =
           pending m @ grid_tasks cfg m0 (map (\<lambda>c. (c, 0)) cs) (nextHandle m) \<and>
         stored_eq m0 (resume_columns cfg (map (\<lambda>c. (c, 0)) cs) m) \<and>
         timers (resume_columns cfg (map (\<lambda>c. (c, 0)) cs) m) = timers m"
  using assms
proof (induction cs arbitrary: m)
  case Nil
  then show ?case by simp
next
  case (Cons c cs)
  have sh: "shape m = shape m0" using Cons.prems(1) by (simp add: stored_eq_def)
  have c0: "c < length (columns m0)" "columns m0 ! c \<noteq> []" using Cons.prems(2) by simp_all
  have c: "c < length (columns m)" and len: "length (columns m ! c) = length (columns m0 ! c)"
    using shape_column_length [OF sh c0(1)] by simp_all
  have at: "cell_at m c 0 = Some (c, 0)"
    using c len c0(2) by (simp add: cell_at_def valid_cell_def)
  define m1 where "m1 = resume_walk cfg (Some (c, 0)) 0 m"
  have w: "pending m1 = pending m @ column_tasks cfg m c (nextHandle m)"
    "nextHandle m1 = nextHandle m + length (reschedule_rows cfg m c)"
    "stored_eq m m1" "timers m1 = timers m"
    using walk_effect [of c m 0 "length (columns m ! c)" cfg 0] c
    by (simp_all add: at m1_def walk_column_tasks)
  have e: "column_tasks cfg m c h = column_tasks cfg m0 c h"
    "reschedule_rows cfg m c = reschedule_rows cfg m0 c" for h
    using stored_eq_column_tasks [OF Cons.prems(1) c0(1)] by simp_all
  have s1: "stored_eq m0 m1" using stored_eq_trans [OF Cons.prems(1) w(3)] .
  have rest: "\<forall>c\<in>set cs. c < length (columns m0) \<and> columns m0 ! c \<noteq> []"
    using Cons.prems(2) by simp
  show ?case
    using Cons.IH [OF s1 rest] w e
    by (simp add: m1_def [symmetric])
qed

lemma column_tasks_member:
  assumes "t \<in> set (column_tasks cfg m c h)"
  shows "\<exists>r. r < length (columns m ! c) \<and> \<not> resume_skips cfg (get_update m (c, r)) \<and>
             act t = AUpdateCell (c, r) (nextChar (get_update m (c, r)))"
proof -
  obtain k where k: "k < length (reschedule_rows cfg m c)"
    and t: "act t = AUpdateCell (c, reschedule_rows cfg m c ! k)
                      (nextChar (get_update m (c, reschedule_rows cfg m c ! k)))"
    using assms by (auto simp: column_tasks_def)
  have "reschedule_rows cfg m c ! k \<in> set (reschedule_rows cfg m c)"
    using k by simp
  then have "reschedule_rows cfg m c ! k < length (columns m ! c) \<and>
             \<not> resume_skips cfg (get_update m (c, reschedule_rows cfg m c ! k))"
    unfolding reschedule_rows_def by simp
  then show ?thesis using t by blast
qed

lemma grid_tasks_member:
  "t \<in> set (grid_tasks cfg m cls h) \<Longrightarrow>
   \<exists>cl\<in>set cls. \<exists>r. r < length (columns m ! fst cl) \<and>
      \<not> resume_skips cfg (get_update m (fst cl, r)) \<and>
      act t = AUpdateCell (fst cl, r) (nextChar (get_update m (fst cl, r)))"
proof (induction cls arbitrary: h)
  case Nil
  then show ?case by simp
next
  case (Cons cl cls)
  then consider (here) "t \<in> set (column_tasks cfg m (fst cl) h)"
    | (later) "t \<in> set (grid_tasks cfg m cls (h + length (reschedule_rows cfg m (fst cl))))"
    by auto
  then show ?case
  proof cases
    case here
    then show ?thesis using column_tasks_member [OF here] by auto
  next
    case later
    then show ?thesis using Cons.IH [OF later] by auto
  qed
qed

text \<open>
  \<open>resume({onlyTopCells: false})\<close> with no delay: the pending resume is cancelled and
  \<open>start()\<close> is called before the columns are walked.
\<close>

definition resume_started :: "config \<Rightarrow> (nat \<Rightarrow> real) \<Rightarrow> monitor \<Rightarrow> monitor" where
  "resume_started cfg rnd s = priv_start cfg rnd Missing (clearTimeout (resume_t (timers s)) s)"

definition resume_all :: resume_options where
  "resume_all = \<lparr>ro_delay = None, ro_onlyTopCells = Some False\<rparr>"

text \<open>
  C3. \<open>resume({onlyTopCells: false})\<close> calls \<open>start\<close> with no options and then queues,
  after whatever \<open>start\<close> has queued, one update task for every cell that the walk does
  not skip, column after column from the top cell down. Each task carries the glyph that
  its cell has stored as the next one, and is due after the sum of the progressions stored
  by the cells of its column rescheduled before it, a sum that starts at \<open>0\<close> in every
  column. No new task is for a cell whose \<open>isUpdated\<close> flag is set, and nothing that a
  cell has stored changes but the handle of its timer.
\<close>

theorem resume_reschedules:
  "pending (resume_body cfg rnd resume_all s) =
     pending (resume_started cfg rnd s) @
     grid_tasks cfg s (topCells s) (nextHandle (resume_started cfg rnd s)) \<and>
   timers (resume_body cfg rnd resume_all s) = timers (resume_started cfg rnd s) \<and>
   stored_eq s (resume_body cfg rnd resume_all s) \<and>
   (\<forall>t\<in>set (grid_tasks cfg s (topCells s) (nextHandle (resume_started cfg rnd s))).
      \<exists>c r. valid_cell s (c, r) \<and> \<not> isUpdated (get_update s (c, r)) \<and>
            act t = AUpdateCell (c, r) (nextChar (get_update s (c, r))))"
proof -
  define m1 where "m1 = resume_started cfg rnd s"
  define cs where "cs = filter (\<lambda>c. columns s ! c \<noteq> []) [0..<length (columns s)]"
  have tc: "topCells s = map (\<lambda>c. (c, 0)) cs" by (simp add: topCells_def cs_def)
  have s1: "stored_eq s m1"
    unfolding m1_def resume_started_def
    using stored_eq_trans [OF stored_eq_clearTimeout stored_eq_priv_start] .
  then have sh: "shape m1 = shape s" by (simp add: stored_eq_def)
  have body: "resume_body cfg rnd resume_all s = resume_columns cfg (map (\<lambda>c. (c, 0)) cs) m1"
    using topCells_shape [OF sh]
    by (simp add: resume_body_def resume_all_def resumeFunction_def Let_def m1_def
        resume_started_def tc)
  have cs: "\<forall>c\<in>set cs. c < length (columns s) \<and> columns s ! c \<noteq> []"
    by (simp add: cs_def)
  have eff: "pending (resume_columns cfg (map (\<lambda>c. (c, 0)) cs) m1) =
           pending m1 @ grid_tasks cfg s (map (\<lambda>c. (c, 0)) cs) (nextHandle m1)"
    "stored_eq s (resume_columns cfg (map (\<lambda>c. (c, 0)) cs) m1)"
    "timers (resume_columns cfg (map (\<lambda>c. (c, 0)) cs) m1) = timers m1"
    using columns_effect [OF s1 cs, of cfg] by simp_all
  have mem: "\<exists>c r. valid_cell s (c, r) \<and> \<not> isUpdated (get_update s (c, r)) \<and>
            act t = AUpdateCell (c, r) (nextChar (get_update s (c, r)))"
    if tin: "t \<in> set (grid_tasks cfg s (topCells s) (nextHandle m1))" for t
  proof -
    obtain cl r where cl: "cl \<in> set (topCells s)" and r: "r < length (columns s ! fst cl)"
      and sk: "\<not> resume_skips cfg (get_update s (fst cl, r))"
      and a: "act t = AUpdateCell (fst cl, r) (nextChar (get_update s (fst cl, r)))"
      using grid_tasks_member [OF tin] by blast
    have "fst cl < length (columns s)" using cl cs by (auto simp: tc)
    then have "valid_cell s (fst cl, r)" using r by (simp add: valid_cell_def)
    moreover have "\<not> isUpdated (get_update s (fst cl, r))"
      using sk by (simp add: resume_skips_def)
    ultimately show ?thesis using a by blast
  qed
  show ?thesis
    unfolding body m1_def [symmetric] using eff mem by (simp add: tc)
qed


text \<open>
  A column of three cells: the start fires, the droplet of the column is spawned and the
  update of its top cell fires; then the whole grid is paused at once, 500 ms before the
  update of the second cell and 1000 ms before that of the third. On resume the two are
  due at once and after 500 ms.
\<close>

definition cascading :: monitor where
  "cascading =
     run_next demo_config rnd_half (run_next demo_config rnd_half (run_next demo_config rnd_half
       (priv_start demo_config rnd_half Missing (new_monitor [3]))))"

definition halted :: monitor where
  "halted =
     run_next demo_config rnd_half
       (pause_body (no_pause_options\<lparr>po_allAtOnce := Some True\<rparr>) cascading)"

theorem resume_reschedules_witness:
  "now halted = 6250 \<and>
   map (\<lambda>r. (isUpdated (get_update halted (0, r)), progression (get_update halted (0, r))))
     [0, 1, 2] = [(True, Some 500), (False, Some 500), (False, Some 500)] \<and>
   map (\<lambda>t. (handle t, due t, act t))
     (grid_tasks demo_config halted (topCells halted)
        (nextHandle (resume_started demo_config rnd_half halted))) =
     [(10, 6250, AUpdateCell (0, 1) (JStr ''B'')), (11, 6750, AUpdateCell (0, 2) (JStr ''A''))] \<and>
   map (\<lambda>t. (handle t, due t, act t))
     (pending (resume_body demo_config rnd_half resume_all halted)) =
     [(7, 6450, AFade (0, 0) (JStr ''A'')), (9, 7250, AStartFunction),
      (10, 6250, AUpdateCell (0, 1) (JStr ''B'')), (11, 6750, AUpdateCell (0, 2) (JStr ''A''))]"
proof -
  have a: "now halted = 6250" by code_simp
  have b: "map (\<lambda>r. (isUpdated (get_update halted (0, r)), progression (get_update halted (0, r))))
     [0, 1, 2] = [(True, Some 500), (False, Some 500), (False, Some 500)]" by code_simp
  have c: "map (\<lambda>t. (handle t, due t, act t))
     (grid_tasks demo_config halted (topCells halted)
        (nextHandle (resume_started demo_config rnd_half halted))) =
     [(10, 6250, AUpdateCell (0, 1) (JStr ''B'')), (11, 6750, AUpdateCell (0, 2) (JStr ''A''))]"
    by code_simp
  have d: "map (\<lambda>t. (handle t, due t, act t))
     (pending (resume_started demo_config rnd_half halted)) =
     [(7, 6450, AFade (0, 0) (JStr ''A'')), (9, 7250, AStartFunction)]" by code_simp
  have "pending (resume_body demo_config rnd_half resume_all halted) =
     pending (resume_started demo_config rnd_half halted) @
     grid_tasks demo_config halted (topCells halted)
       (nextHandle (resume_started demo_config rnd_half halted))"
    using resume_reschedules [of demo_config rnd_half halted] by (rule conjunct1)
  then have "map (\<lambda>t. (handle t, due t, act t))
     (pending (resume_body demo_config rnd_half resume_all halted)) =
     map (\<lambda>t. (handle t, due t, act t)) (pending (resume_started demo_config rnd_half halted)) @
     map (\<lambda>t. (handle t, due t, act t)) (grid_tasks demo_config halted (topCells halted)
       (nextHandle (resume_started demo_config rnd_half halted)))"
    by (simp only: map_append)
  then have e: "map (\<lambda>t. (handle t, due t, act t))
     (pending (resume_body demo_config rnd_half resume_all halted)) =
     [(7, 6450, AFade (0, 0) (JStr ''A'')), (9, 7250, AStartFunction),
      (10, 6250, AUpdateCell (0, 1) (JStr ''B'')), (11, 6750, AUpdateCell (0, 2) (JStr ''A''))]"
    unfolding c d by simp
  show ?thesis using a b c e by (intro conjI)
qed

end
